theory Spec2Isabelle
  imports Main
begin

section \<open>Strings as Python sees them\<close>

text \<open>
  A Python \<open>str\<close> is a sequence of code points; the model reads a \<open>char\<close> as a code
  point below 256.  In that range \<open>str.isdigit\<close> accepts the ten ASCII digits and the
  three superscript digits U+00B2, U+00B3 and U+00B9.
\<close>

definition ascii_digit :: "char \<Rightarrow> bool" where
  "ascii_digit c = (48 \<le> (of_char c :: nat) \<and> (of_char c :: nat) \<le> 57)"

definition char_isdigit :: "char \<Rightarrow> bool" where
  "char_isdigit c =
     (ascii_digit c \<or> (of_char c :: nat) = 178 \<or> (of_char c :: nat) = 179
        \<or> (of_char c :: nat) = 185)"

definition str_isdigit :: "string \<Rightarrow> bool" where
  "str_isdigit s = (s \<noteq> [] \<and> list_all char_isdigit s)"

text \<open>\<open>s.split(d)\<close> for a one-character separator: never empty, keeps empty tokens.\<close>

fun split_on :: "char \<Rightarrow> string \<Rightarrow> string list" where
  "split_on d [] = [[]]"
| "split_on d (c # cs) =
     (if c = d then [] # split_on d cs
      else (case split_on d cs of
              p # ps \<Rightarrow> (c # p) # ps
            | [] \<Rightarrow> [[c]]))"

text \<open>\<open>sep.join(parts)\<close>.\<close>

fun join :: "string \<Rightarrow> string list \<Rightarrow> string" where
  "join sep [] = []"
| "join sep [p] = p"
| "join sep (p # q # ps) = p @ sep @ join sep (q # ps)"

definition endswith :: "string \<Rightarrow> string \<Rightarrow> bool" where
  "endswith s suf = (length suf \<le> length s \<and> drop (length s - length suf) s = suf)"

text \<open>\<open>s.rfind(c)\<close>: the index of the last occurrence, \<open>None\<close> for Python's \<open>-1\<close>.\<close>

fun rfind :: "char \<Rightarrow> string \<Rightarrow> nat option" where
  "rfind c [] = None"
| "rfind c (x # xs) =
     (case rfind c xs of
        Some i \<Rightarrow> Some (Suc i)
      | None \<Rightarrow> (if x = c then Some 0 else None))"

text \<open>
  \<open>PurePath.stem\<close> of a final path component: the name up to its last dot, unless that
  dot is the first or the last character.
\<close>

definition stem :: "string \<Rightarrow> string" where
  "stem name =
     (case rfind (CHR ''.'') name of
        None \<Rightarrow> name
      | Some i \<Rightarrow> (if 0 < i \<and> i < length name - 1 then take i name else name))"

section \<open>Filename identity extraction\<close>

text \<open>
  The loop of \<open>extract_datetime_from_filename\<close> over the tokens: a later 8-digit token
  replaces \<open>date_part\<close>, a later 4-digit token replaces \<open>time_part\<close>.
\<close>

fun scan_parts :: "string list \<Rightarrow> string option \<times> string option
                     \<Rightarrow> string option \<times> string option" where
  "scan_parts [] acc = acc"
| "scan_parts (part # parts) (date_part, time_part) =
     (if length part = 8 \<and> str_isdigit part then scan_parts parts (Some part, time_part)
      else if length part = 4 \<and> str_isdigit part then scan_parts parts (date_part, Some part)
      else scan_parts parts (date_part, time_part))"

definition kind_suffixed :: "string \<Rightarrow> bool" where
  "kind_suffixed name =
     (endswith name ''_pl'' \<or> endswith name ''_sl'' \<or> endswith name ''_tp'')"

definition extract_datetime_from_filename :: "string \<Rightarrow> string" where
  "extract_datetime_from_filename filename =
     (let name = stem filename;
          parts = split_on (CHR ''_'') name
      in case scan_parts parts (None, None) of
           (Some date_part, Some time_part) \<Rightarrow> date_part @ ''_'' @ time_part
         | _ \<Rightarrow> (if kind_suffixed name then join ''_'' (butlast parts) else name))"

text \<open>The two token classes the loop looks for, and the tokens of a stem in each class.\<close>

definition is_date_token :: "string \<Rightarrow> bool" where
  "is_date_token p = (length p = 8 \<and> str_isdigit p)"

definition is_time_token :: "string \<Rightarrow> bool" where
  "is_time_token p = (length p = 4 \<and> str_isdigit p)"

definition date_tokens :: "string \<Rightarrow> string list" where
  "date_tokens name = filter is_date_token (split_on (CHR ''_'') name)"

definition time_tokens :: "string \<Rightarrow> string list" where
  "time_tokens name = filter is_time_token (split_on (CHR ''_'') name)"

section \<open>Date-times and \<open>datetime.strptime\<close>\<close>

text \<open>
  A naive \<open>datetime\<close> built by \<open>strptime\<close> from the formats used here has seconds and
  microseconds zero; the five remaining fields order it lexicographically.
\<close>

record datetime =
  dt_year :: nat
  dt_month :: nat
  dt_day :: nat
  dt_hour :: nat
  dt_minute :: nat

definition dt_lt :: "datetime \<Rightarrow> datetime \<Rightarrow> bool" where
  "dt_lt a b =
     (dt_year a < dt_year b \<or> (dt_year a = dt_year b \<and>
       (dt_month a < dt_month b \<or> (dt_month a = dt_month b \<and>
         (dt_day a < dt_day b \<or> (dt_day a = dt_day b \<and>
           (dt_hour a < dt_hour b \<or> (dt_hour a = dt_hour b \<and>
             dt_minute a < dt_minute b))))))))"

definition dt_le :: "datetime \<Rightarrow> datetime \<Rightarrow> bool" where
  "dt_le a b = (a = b \<or> dt_lt a b)"

text \<open>
  \<open>strptime\<close> turns a format into a regular expression, takes the first match that the
  backtracking matcher finds at the start of the string, and rejects the string when
  that match does not reach its end.  The directives below are the ones in the three
  formats of the source; \<open>WS\<close> is a blank in the format, compiled to \<open>\s+\<close>.
\<close>

datatype directive = DY | Dm | Dd | DH | DM | Lit char | WS

definition digit_val :: "char \<Rightarrow> nat" where
  "digit_val c = (of_char c :: nat) - 48"

definition in_range :: "nat \<Rightarrow> nat \<Rightarrow> char \<Rightarrow> bool" where
  "in_range lo hi c = (ascii_digit c \<and> lo \<le> digit_val c \<and> digit_val c \<le> hi)"

definition char_isspace :: "char \<Rightarrow> bool" where
  "char_isspace c =
     (let n = (of_char c :: nat)
      in (9 \<le> n \<and> n \<le> 13) \<or> (28 \<le> n \<and> n \<le> 32) \<or> n = 133 \<or> n = 160)"

definition alt2 :: "(char \<Rightarrow> bool) \<Rightarrow> (char \<Rightarrow> bool) \<Rightarrow> string \<Rightarrow> (nat \<times> string) list" where
  "alt2 P Q s =
     (case s of
        c1 # c2 # r \<Rightarrow> (if P c1 \<and> Q c2 then [(10 * digit_val c1 + digit_val c2, r)] else [])
      | _ \<Rightarrow> [])"

definition alt1 :: "(char \<Rightarrow> bool) \<Rightarrow> string \<Rightarrow> (nat \<times> string) list" where
  "alt1 P s = (case s of c # r \<Rightarrow> (if P c then [(digit_val c, r)] else []) | [] \<Rightarrow> [])"

text \<open>\<open>%Y\<close> is \<open>\d\d\d\d\<close>.\<close>

definition year_alts :: "string \<Rightarrow> (nat \<times> string) list" where
  "year_alts s =
     (case s of
        a # b # c # d # r \<Rightarrow>
          (if ascii_digit a \<and> ascii_digit b \<and> ascii_digit c \<and> ascii_digit d
           then [(1000 * digit_val a + 100 * digit_val b + 10 * digit_val c + digit_val d, r)]
           else [])
      | _ \<Rightarrow> [])"

text \<open>\<open>%m\<close> is \<open>1[0-2]|0[1-9]|[1-9]\<close>.\<close>

definition month_alts :: "string \<Rightarrow> (nat \<times> string) list" where
  "month_alts s =
     alt2 (in_range 1 1) (in_range 0 2) s @ alt2 (in_range 0 0) (in_range 1 9) s
       @ alt1 (in_range 1 9) s"

text \<open>\<open>%d\<close> is \<open>3[0-1]|[1-2]\d|0[1-9]|[1-9]| [1-9]\<close>.\<close>

definition day_alts :: "string \<Rightarrow> (nat \<times> string) list" where
  "day_alts s =
     alt2 (in_range 3 3) (in_range 0 1) s @ alt2 (in_range 1 2) ascii_digit s
       @ alt2 (in_range 0 0) (in_range 1 9) s @ alt1 (in_range 1 9) s
       @ (case s of c # r \<Rightarrow> (if c = CHR '' '' then alt1 (in_range 1 9) r else []) | [] \<Rightarrow> [])"

text \<open>\<open>%H\<close> is \<open>2[0-3]|[0-1]\d|\d\<close>.\<close>

definition hour_alts :: "string \<Rightarrow> (nat \<times> string) list" where
  "hour_alts s =
     alt2 (in_range 2 2) (in_range 0 3) s @ alt2 (in_range 0 1) ascii_digit s
       @ alt1 ascii_digit s"

text \<open>\<open>%M\<close> is \<open>[0-5]\d|\d\<close>.\<close>

definition minute_alts :: "string \<Rightarrow> (nat \<times> string) list" where
  "minute_alts s = alt2 (in_range 0 5) ascii_digit s @ alt1 ascii_digit s"

text \<open>\<open>\s+\<close> is greedy: the longest run of blanks first, then shorter ones.\<close>

definition ws_alts :: "string \<Rightarrow> string list" where
  "ws_alts s = map (\<lambda>k. drop k s) (rev [1..<Suc (length (takeWhile char_isspace s))])"

text \<open>
  The ways one directive can match at the start of \<open>s\<close>, in the matcher's order of
  preference, each with the fields it sets and the rest of the string.
\<close>

fun alternatives :: "directive \<Rightarrow> string \<Rightarrow> datetime \<Rightarrow> (datetime \<times> string) list" where
  "alternatives DY s acc = map (\<lambda>(v, r). (acc\<lparr>dt_year := v\<rparr>, r)) (year_alts s)"
| "alternatives Dm s acc = map (\<lambda>(v, r). (acc\<lparr>dt_month := v\<rparr>, r)) (month_alts s)"
| "alternatives Dd s acc = map (\<lambda>(v, r). (acc\<lparr>dt_day := v\<rparr>, r)) (day_alts s)"
| "alternatives DH s acc = map (\<lambda>(v, r). (acc\<lparr>dt_hour := v\<rparr>, r)) (hour_alts s)"
| "alternatives DM s acc = map (\<lambda>(v, r). (acc\<lparr>dt_minute := v\<rparr>, r)) (minute_alts s)"
| "alternatives (Lit c) s acc = (case s of x # r \<Rightarrow> (if x = c then [(acc, r)] else []) | [] \<Rightarrow> [])"
| "alternatives WS s acc = map (\<lambda>r. (acc, r)) (ws_alts s)"

text \<open>
  \<open>format_regex.match(data_string)\<close>: the first match in backtracking order.
  \<open>re_alts\<close> tries the alternatives of one directive in turn, each followed by the
  rest of the pattern.
\<close>

fun re_match :: "directive list \<Rightarrow> string \<Rightarrow> datetime \<Rightarrow> (datetime \<times> string) option"
  and re_alts :: "directive list \<Rightarrow> (datetime \<times> string) list \<Rightarrow> (datetime \<times> string) option" where
  "re_match [] s acc = Some (acc, s)"
| "re_match (d # ds) s acc = re_alts ds (alternatives d s acc)"
| "re_alts ds [] = None"
| "re_alts ds ((acc', rest) # alts) =
     (case re_match ds rest acc' of
        Some r \<Rightarrow> Some r
      | None \<Rightarrow> re_alts ds alts)"

definition is_leap :: "nat \<Rightarrow> bool" where
  "is_leap y = (y mod 4 = 0 \<and> (y mod 100 \<noteq> 0 \<or> y mod 400 = 0))"

definition days_in_month :: "nat \<Rightarrow> nat \<Rightarrow> nat" where
  "days_in_month y m =
     (if m = 2 then (if is_leap y then 29 else 28)
      else if m = 4 \<or> m = 6 \<or> m = 9 \<or> m = 11 then 30 else 31)"

text \<open>The calendar check made when the \<open>datetime\<close> is built (years run from 1 to 9999).\<close>

definition valid_datetime :: "datetime \<Rightarrow> bool" where
  "valid_datetime d =
     (1 \<le> dt_year d \<and> dt_year d \<le> 9999 \<and> 1 \<le> dt_month d \<and> dt_month d \<le> 12
        \<and> 1 \<le> dt_day d \<and> dt_day d \<le> days_in_month (dt_year d) (dt_month d)
        \<and> dt_hour d \<le> 23 \<and> dt_minute d \<le> 59)"

definition strptime_defaults :: datetime where
  "strptime_defaults =
     \<lparr>dt_year = 1900, dt_month = 1, dt_day = 1, dt_hour = 0, dt_minute = 0\<rparr>"

text \<open>\<open>datetime.strptime(s, fmt)\<close>; \<open>None\<close> stands for the \<open>ValueError\<close> it raises.\<close>

definition strptime :: "string \<Rightarrow> directive list \<Rightarrow> datetime option" where
  "strptime s fmt =
     (case re_match fmt s strptime_defaults of
        None \<Rightarrow> None
      | Some (d, rest) \<Rightarrow> (if rest = [] \<and> valid_datetime d then Some d else None))"

text \<open>The formats \<open>"%Y-%m-%d %H:%M"\<close>, \<open>"%Y%m%d_%H%M"\<close> and \<open>"%Y%m%d_%H00"\<close>.\<close>

definition fmt_dashed :: "directive list" where
  "fmt_dashed = [DY, Lit (CHR ''-''), Dm, Lit (CHR ''-''), Dd, WS, DH, Lit (CHR '':''), DM]"

definition fmt_compact :: "directive list" where
  "fmt_compact = [DY, Dm, Dd, Lit (CHR ''_''), DH, DM]"

definition fmt_compact_h00 :: "directive list" where
  "fmt_compact_h00 = [DY, Dm, Dd, Lit (CHR ''_''), DH, Lit (CHR ''0''), Lit (CHR ''0'')]"

definition parse_datetime_string :: "string \<Rightarrow> datetime option" where
  "parse_datetime_string datetime_str =
     (case strptime datetime_str fmt_compact of
        Some d \<Rightarrow> Some d
      | None \<Rightarrow>
          (case strptime datetime_str fmt_compact_h00 of
             Some d \<Rightarrow> Some d
           | None \<Rightarrow> None))"

section \<open>Arrays, datasets and the errors of one group\<close>

text \<open>
  A numpy array is its shape and its elements in row-major order; the element type is
  left open.  A dataset is what the merge reads of an opened file: the data variables in
  file order and the two grid coordinates, absent when the file has none of that name.
\<close>

datatype 'a ndarray = NDArray (shape: "nat list") (elems: "'a list")

definition ndim :: "'a ndarray \<Rightarrow> nat" where
  "ndim a = length (shape a)"

record 'a dataset =
  data_vars :: "(string \<times> 'a ndarray) list"
  latitude :: "'a list option"
  longitude :: "'a list option"

datatype kind = PL | SL | TP

text \<open>
  The exceptions one group can end with.  \<open>OSError\<close> stands for whatever exception an
  input or output call raises (an \<open>OSError\<close>, or the \<open>ValueError\<close> of a file no backend
  can read); it carries the call that raised it, which keeps it apart from the
  \<open>ValueError\<close> of numpy and xarray.
\<close>

datatype io_site = OpenSource kind | WriteOutput | VerifyOutput

datatype error = IndexError | ValueError | AttributeError | OSError io_site

text \<open>\<open>data.squeeze(0)\<close> on an array of at least one axis: the axis must have length one.\<close>

definition squeeze0 :: "'a ndarray \<Rightarrow> error + 'a ndarray" where
  "squeeze0 a =
     (case shape a of
        [] \<Rightarrow> Inl ValueError
      | n # ns \<Rightarrow> (if n = 1 then Inr (NDArray ns (elems a)) else Inl ValueError))"

text \<open>\<open>data[i]\<close> for \<open>i\<close> within the first axis.\<close>

definition index0 :: "'a ndarray \<Rightarrow> nat \<Rightarrow> 'a ndarray" where
  "index0 a i =
     (let sz = prod_list (tl (shape a))
      in NDArray (tl (shape a)) (take sz (drop (i * sz) (elems a))))"

text \<open>
  \<open>np.stack(arrays, axis=0)\<close>: at least one array, all of one shape.  The stacked array
  has one dtype, so numpy first converts the arrays to a common one; \<open>promote\<close> gives
  the element lists after that conversion (the lists as they are when the arrays
  already share a dtype).
\<close>

definition np_stack :: "('a ndarray list \<Rightarrow> 'a list list) \<Rightarrow> 'a ndarray list \<Rightarrow> error + 'a ndarray" where
  "np_stack promote arrays =
     (case arrays of
        [] \<Rightarrow> Inl ValueError
      | a # _ \<Rightarrow>
          (if list_all (\<lambda>b. shape b = shape a) arrays
           then Inr (NDArray (length arrays # shape a) (concat (promote arrays)))
           else Inl ValueError))"

section \<open>The variable flattener\<close>

definition pressure_levels :: "nat list" where
  "pressure_levels = [50, 100, 150, 200, 250, 300, 400, 500, 600, 700, 850, 925, 1000]"

text \<open>\<open>str(n)\<close> for a natural number, as the f-string prints the pressure.\<close>

fun str_nat :: "nat \<Rightarrow> string" where
  "str_nat n =
     (if n < 10 then [char_of (48 + n)]
      else str_nat (n div 10) @ [char_of (48 + n mod 10)])"

declare str_nat.simps [simp del]

type_synonym 'a flat = "'a ndarray list \<times> string list"

text \<open>
  The inner loop over \<open>range(data.shape[0])\<close>: the slice is appended, then the pressure
  is looked up, which raises \<open>IndexError\<close> past the end of the list.
\<close>

fun level_loop :: "string \<Rightarrow> 'a ndarray \<Rightarrow> nat list \<Rightarrow> 'a flat \<Rightarrow> error + 'a flat" where
  "level_loop var data [] acc = Inr acc"
| "level_loop var data (level_idx # idxs) (all_data, var_names) =
     (if level_idx < length pressure_levels
      then level_loop var data idxs
             (all_data @ [index0 data level_idx],
              var_names @ [var @ str_nat (pressure_levels ! level_idx)])
      else Inl IndexError)"

text \<open>The loop over the pressure-level variables: only a 4-D array contributes.\<close>

fun flatten_pl :: "(string \<times> 'a ndarray) list \<Rightarrow> 'a flat \<Rightarrow> error + 'a flat" where
  "flatten_pl [] acc = Inr acc"
| "flatten_pl ((var, data) # vars) acc =
     (if ndim data = 4
      then (case squeeze0 data of
              Inl e \<Rightarrow> Inl e
            | Inr sq \<Rightarrow>
                (case level_loop var sq [0..<hd (shape sq)] acc of
                   Inl e \<Rightarrow> Inl e
                 | Inr acc' \<Rightarrow> flatten_pl vars acc'))
      else flatten_pl vars acc)"

text \<open>
  The loop over the surface-level variables, and the same loop again over the
  precipitation variables: a 3-D array loses its first axis, any other is taken as it is.
\<close>

fun flatten_single :: "(string \<times> 'a ndarray) list \<Rightarrow> 'a flat \<Rightarrow> error + 'a flat" where
  "flatten_single [] acc = Inr acc"
| "flatten_single ((var, data) # vars) (all_data, var_names) =
     (if ndim data = 3
      then (case squeeze0 data of
              Inl e \<Rightarrow> Inl e
            | Inr sq \<Rightarrow> flatten_single vars (all_data @ [sq], var_names @ [var]))
      else flatten_single vars (all_data @ [data], var_names @ [var]))"

section \<open>The combined record\<close>

record 'a combined_record =
  rec_data_vars :: "(string \<times> 'a ndarray) list"
  rec_latitude :: "'a list"
  rec_longitude :: "'a list"
  total_variables :: nat
  attr_pressure_levels :: string
  pl_variables :: string
  sl_variables :: string
  tp_variables :: string
  variable_list :: string
  attr_datetime :: string

text \<open>\<open>d[k] = v\<close> on a dict kept in insertion order: a known key keeps its place.\<close>

fun dict_set :: "('k \<times> 'v) list \<Rightarrow> 'k \<Rightarrow> 'v \<Rightarrow> ('k \<times> 'v) list" where
  "dict_set [] k v = [(k, v)]"
| "dict_set ((k', v') # d) k v = (if k' = k then (k, v) # d else (k', v') # dict_set d k v)"

text \<open>The loop \<open>for i, var_name in enumerate(var_names)\<close> filling \<open>data_vars\<close>.\<close>

fun fill_data_vars :: "'a ndarray \<Rightarrow> (nat \<times> string) list
                         \<Rightarrow> (string \<times> 'a ndarray) list \<Rightarrow> (string \<times> 'a ndarray) list" where
  "fill_data_vars merged [] dv = dv"
| "fill_data_vars merged ((i, var_name) # rest) dv =
     fill_data_vars merged rest (dict_set dv var_name (index0 merged i))"

text \<open>
  \<open>xr.Dataset(data_vars, coords=coords)\<close> with every variable on the dimensions
  \<open>latitude\<close> and \<open>longitude\<close>: a name may not be a coordinate as well, and every array
  must be 2-D with the lengths of the two coordinates.
\<close>

definition dataset_ok :: "(string \<times> 'a ndarray) list \<Rightarrow> 'a list \<Rightarrow> 'a list \<Rightarrow> bool" where
  "dataset_ok dv lat lon =
     (list_all (\<lambda>(name, a). name \<noteq> ''latitude'' \<and> name \<noteq> ''longitude''
                  \<and> shape a = [length lat, length lon]) dv)"

text \<open>Lines 276 to 306: stack, read the grid of the pressure-level file, build the record.\<close>

definition build_record ::
  "('a ndarray list \<Rightarrow> 'a list list) \<Rightarrow> string \<Rightarrow> 'a dataset \<Rightarrow> string list \<Rightarrow> string list
     \<Rightarrow> string list \<Rightarrow> 'a flat \<Rightarrow> error + 'a combined_record" where
  "build_record promote datetime_str ds_pl pl_vars sl_vars tp_vars flat =
     (case flat of (all_data, var_names) \<Rightarrow>
      (case np_stack promote all_data of
         Inl e \<Rightarrow> Inl e
       | Inr merged \<Rightarrow>
          (case latitude ds_pl of
             None \<Rightarrow> Inl AttributeError
           | Some lat \<Rightarrow>
              (case longitude ds_pl of
                 None \<Rightarrow> Inl AttributeError
               | Some lon \<Rightarrow>
                  (let dv = fill_data_vars merged (enumerate 0 var_names) []
                   in if dataset_ok dv lat lon
                      then Inr \<lparr>rec_data_vars = dv,
                                rec_latitude = lat,
                                rec_longitude = lon,
                                total_variables = length var_names,
                                attr_pressure_levels = join '', '' (map str_nat pressure_levels),
                                pl_variables = join '', '' pl_vars,
                                sl_variables = join '', '' sl_vars,
                                tp_variables = join '', '' tp_vars,
                                variable_list = join '', '' var_names,
                                attr_datetime = datetime_str\<rparr>
                      else Inl ValueError)))))"

section \<open>The merge run\<close>

text \<open>
  \<open>to_netcdf\<close> on an output name writes the file, or raises before the file exists, or
  raises after the file was created and before it is complete.
\<close>

datatype write_result = WriteOk | WriteFailed | WriteFailedPartial

text \<open>
  What the run does not decide itself is its environment: what opening a source file
  gives (\<open>None\<close> when \<open>xr.open_dataset\<close> raises), how numpy converts the arrays it
  stacks, what \<open>to_netcdf\<close> does on an output name, and whether the written file can be
  opened again for verification.  A source file is named by its kind and its file name
  in the directory of that kind.
\<close>

record 'a env =
  open_dataset :: "kind \<Rightarrow> string \<Rightarrow> 'a dataset option"
  np_promote :: "'a ndarray list \<Rightarrow> 'a list list"
  to_netcdf :: "string \<Rightarrow> write_result"
  reopen_ok :: "string \<Rightarrow> bool"

text \<open>A file of the output directory holds a whole record or what a failed write left.\<close>

datatype 'a file_content = Written "'a combined_record" | Truncated

text \<open>What the run prints about a group: skipped, failed with an exception, or saved.\<close>

datatype outcome = Skipped | Failed error | Merged

text \<open>
  The state a run threads through: the output directory (file name to content), the
  source datasets opened and not closed, the counter, and the diagnostics per group
  in the order printed.
\<close>

record 'a state =
  out_files :: "string \<rightharpoonup> 'a file_content"
  open_handles :: "(kind \<times> string) list"
  processed_count :: nat
  diagnostics :: "(string \<times> outcome) list"

definition output_name :: "string \<Rightarrow> string" where
  "output_name datetime_str = ''era5_'' @ datetime_str @ ''.nc''"

definition opened :: "'a state \<Rightarrow> kind \<Rightarrow> string \<Rightarrow> 'a state" where
  "opened st k file = st\<lparr>open_handles := open_handles st @ [(k, file)]\<rparr>"

definition closed :: "'a state \<Rightarrow> kind \<Rightarrow> string \<Rightarrow> 'a state" where
  "closed st k file = st\<lparr>open_handles := remove1 (k, file) (open_handles st)\<rparr>"

text \<open>
  The body of the \<open>try\<close> for one complete group (lines 227 to 331), in source order.
  It returns the state reached and the exception that left the body, if any.
\<close>

definition try_group ::
  "'a env \<Rightarrow> 'a state \<Rightarrow> string \<Rightarrow> string \<Rightarrow> string \<Rightarrow> string \<Rightarrow> 'a state \<times> error option" where
  "try_group env st datetime_str file_pl file_sl file_tp =
     (case open_dataset env PL file_pl of
        None \<Rightarrow> (st, Some (OSError (OpenSource PL)))
      | Some ds_pl \<Rightarrow>
     (let st1 = opened st PL file_pl in
      case flatten_pl (data_vars ds_pl) ([], []) of
        Inl e \<Rightarrow> (st1, Some e)
      | Inr flat1 \<Rightarrow>
     (case open_dataset env SL file_sl of
        None \<Rightarrow> (st1, Some (OSError (OpenSource SL)))
      | Some ds_sl \<Rightarrow>
     (let st2 = opened st1 SL file_sl in
      case flatten_single (data_vars ds_sl) flat1 of
        Inl e \<Rightarrow> (st2, Some e)
      | Inr flat2 \<Rightarrow>
     (case open_dataset env TP file_tp of
        None \<Rightarrow> (st2, Some (OSError (OpenSource TP)))
      | Some ds_tp \<Rightarrow>
     (let st3 = opened st2 TP file_tp in
      case flatten_single (data_vars ds_tp) flat2 of
        Inl e \<Rightarrow> (st3, Some e)
      | Inr flat3 \<Rightarrow>
     (case build_record (np_promote env) datetime_str ds_pl (map fst (data_vars ds_pl))
             (map fst (data_vars ds_sl)) (map fst (data_vars ds_tp)) flat3 of
        Inl e \<Rightarrow> (st3, Some e)
      | Inr merged_ds \<Rightarrow>
     (let output_file = output_name datetime_str in
      case to_netcdf env output_file of
        WriteFailed \<Rightarrow> (st3, Some (OSError WriteOutput))
      | WriteFailedPartial \<Rightarrow>
          (st3\<lparr>out_files := (out_files st3)(output_file \<mapsto> Truncated)\<rparr>,
           Some (OSError WriteOutput))
      | WriteOk \<Rightarrow>
     (let st4 = st3\<lparr>out_files := (out_files st3)(output_file \<mapsto> Written merged_ds)\<rparr> in
      if \<not> reopen_ok env output_file then (st4, Some (OSError VerifyOutput))
      else if rec_data_vars merged_ds = [] then (st4, Some IndexError)
      else
     (let st5 = closed (closed (closed st4 PL file_pl) SL file_sl) TP file_tp
      in (st5\<lparr>processed_count := processed_count st5 + 1\<rparr>, None)))))))))))"

text \<open>The inner dict of a group: one optional file per kind.\<close>

type_synonym files = "kind \<Rightarrow> string option"

definition log :: "'a state \<Rightarrow> string \<Rightarrow> outcome \<Rightarrow> 'a state" where
  "log st datetime_str oc = st\<lparr>diagnostics := diagnostics st @ [(datetime_str, oc)]\<rparr>"

text \<open>One turn of the loop over \<open>date_groups.items()\<close> (lines 219 to 334).\<close>

definition process_group :: "'a env \<Rightarrow> 'a state \<Rightarrow> string \<times> files \<Rightarrow> 'a state" where
  "process_group env st g =
     (case g of (datetime_str, fs) \<Rightarrow>
      (case (fs PL, fs SL, fs TP) of
         (Some file_pl, Some file_sl, Some file_tp) \<Rightarrow>
           (case try_group env st datetime_str file_pl file_sl file_tp of
              (st', None) \<Rightarrow> log st' datetime_str Merged
            | (st', Some e) \<Rightarrow> log st' datetime_str (Failed e))
       | _ \<Rightarrow> log st datetime_str Skipped))"

fun process_groups :: "'a env \<Rightarrow> 'a state \<Rightarrow> (string \<times> files) list \<Rightarrow> 'a state" where
  "process_groups env st [] = st"
| "process_groups env st (g # gs) = process_groups env (process_group env st g) gs"

text \<open>
  Parsing one bound (lines 129 to 152): \<open>None\<close> or the empty string is no bound;
  \<open>Inl ()\<close> is the early \<open>return\<close> after neither format matched.
\<close>

definition parse_bound :: "string option \<Rightarrow> unit + datetime option" where
  "parse_bound t =
     (case t of
        None \<Rightarrow> Inr None
      | Some s \<Rightarrow>
          (if s = [] then Inr None
           else (case strptime s fmt_dashed of
                   Some d \<Rightarrow> Inr (Some d)
                 | None \<Rightarrow>
                     (case strptime s fmt_compact of
                        Some d \<Rightarrow> Inr (Some d)
                      | None \<Rightarrow> Inl ()))))"

text \<open>One of the three scanning loops (lines 164 to 202) over the files of a kind.\<close>

fun scan_files :: "kind \<Rightarrow> string list \<Rightarrow> datetime option \<Rightarrow> datetime option
                     \<Rightarrow> (kind \<times> string \<times> string \<times> datetime) list" where
  "scan_files k [] start_dt end_dt = []"
| "scan_files k (file # rest) start_dt end_dt =
     (let datetime_str = extract_datetime_from_filename file
      in case parse_datetime_string datetime_str of
           None \<Rightarrow> scan_files k rest start_dt end_dt
         | Some file_dt \<Rightarrow>
             (if (case start_dt of Some s \<Rightarrow> dt_lt file_dt s | None \<Rightarrow> False)
              then scan_files k rest start_dt end_dt
              else if (case end_dt of Some e \<Rightarrow> dt_lt e file_dt | None \<Rightarrow> False)
              then scan_files k rest start_dt end_dt
              else (k, file, datetime_str, file_dt) # scan_files k rest start_dt end_dt))"

text \<open>The grouping loop (lines 205 to 208) on a dict kept in insertion order.\<close>

fun set_slot :: "(string \<times> files) list \<Rightarrow> string \<Rightarrow> kind \<Rightarrow> string \<Rightarrow> (string \<times> files) list" where
  "set_slot [] key k file = [(key, (\<lambda>_. None)(k := Some file))]"
| "set_slot ((key', fs) # groups) key k file =
     (if key' = key then (key', fs(k := Some file)) # groups
      else (key', fs) # set_slot groups key k file)"

fun group_files :: "(kind \<times> string \<times> string \<times> datetime) list \<Rightarrow> (string \<times> files) list
                      \<Rightarrow> (string \<times> files) list" where
  "group_files [] date_groups = date_groups"
| "group_files ((k, file, datetime_str, file_dt) # rest) date_groups =
     group_files rest (set_slot date_groups datetime_str k file)"

definition date_groups_of ::
  "string list \<Rightarrow> string list \<Rightarrow> string list \<Rightarrow> datetime option \<Rightarrow> datetime option
     \<Rightarrow> (string \<times> files) list" where
  "date_groups_of pl_files sl_files tp_files start_dt end_dt =
     group_files (scan_files PL pl_files start_dt end_dt
                    @ scan_files SL sl_files start_dt end_dt
                    @ scan_files TP tp_files start_dt end_dt) []"

text \<open>
  \<open>merge_data\<close> on the three sorted listings, after the output directory is made:
  \<open>None\<close> is the early return on a bound that does not parse, before any file is
  scanned; otherwise the state after the last group.
\<close>

definition merge_data ::
  "'a env \<Rightarrow> string list \<Rightarrow> string list \<Rightarrow> string list \<Rightarrow> string option \<Rightarrow> string option
     \<Rightarrow> 'a state \<Rightarrow> 'a state option" where
  "merge_data env pl_files sl_files tp_files start_time end_time st =
     (case parse_bound start_time of
        Inl _ \<Rightarrow> None
      | Inr start_dt \<Rightarrow>
          (case parse_bound end_time of
             Inl _ \<Rightarrow> None
           | Inr end_dt \<Rightarrow>
               Some (process_groups env (st\<lparr>processed_count := 0, diagnostics := []\<rparr>)
                       (date_groups_of pl_files sl_files tp_files start_dt end_dt))))"

section \<open>Derived notions used in the statements\<close>

text \<open>A state with nothing in it: what one group adds is read off a run from here.\<close>

definition empty_state :: "'a state" where
  "empty_state =
     \<lparr>out_files = Map.empty, open_handles = [], processed_count = 0, diagnostics = []\<rparr>"

text \<open>A group is complete when all three slots are filled (the test of line 220).\<close>

definition complete :: "files \<Rightarrow> bool" where
  "complete fs = (fs PL \<noteq> None \<and> fs SL \<noteq> None \<and> fs TP \<noteq> None)"

text \<open>What the run reports about a group; it does not depend on the state before.\<close>

definition group_outcome :: "'a env \<Rightarrow> string \<times> files \<Rightarrow> outcome" where
  "group_outcome env g =
     (case g of (datetime_str, fs) \<Rightarrow>
      (case (fs PL, fs SL, fs TP) of
         (Some file_pl, Some file_sl, Some file_tp) \<Rightarrow>
           (case snd (try_group env empty_state datetime_str file_pl file_sl file_tp) of
              None \<Rightarrow> Merged
            | Some e \<Rightarrow> Failed e)
       | _ \<Rightarrow> Skipped))"




text \<open>
  A bound is malformed when it is a non-empty string that neither of the two accepted
  formats parses.
\<close>

definition malformed_bound :: "string option \<Rightarrow> bool" where
  "malformed_bound t =
     (case t of
        None \<Rightarrow> False
      | Some s \<Rightarrow> s \<noteq> [] \<and> strptime s fmt_dashed = None \<and> strptime s fmt_compact = None)"

text \<open>The record a file of the output directory holds, when it holds a whole one.\<close>

definition written_record :: "'a state \<Rightarrow> string \<Rightarrow> 'a combined_record option" where
  "written_record st name =
     (case out_files st name of Some (Written r) \<Rightarrow> Some r | _ \<Rightarrow> None)"




text \<open>
  A dict filled from pairs in order: a name seen again keeps its first place and takes
  the later value.
\<close>

fun dict_from :: "('k \<times> 'v) list \<Rightarrow> ('k \<times> 'v) list \<Rightarrow> ('k \<times> 'v) list" where
  "dict_from d [] = d"
| "dict_from d ((k, v) # ps) = dict_from (dict_set d k v) ps"

text \<open>
  The listing of a kind, the kept files of a kind that carry a given key, and the file
  of the last of them: what the slot of that kind holds after the grouping loop.
\<close>

definition listing :: "string list \<Rightarrow> string list \<Rightarrow> string list \<Rightarrow> kind \<Rightarrow> string list" where
  "listing pl_files sl_files tp_files k =
     (case k of PL \<Rightarrow> pl_files | SL \<Rightarrow> sl_files | TP \<Rightarrow> tp_files)"

definition with_key :: "string \<Rightarrow> (kind \<times> string \<times> string \<times> datetime) list
                          \<Rightarrow> (kind \<times> string \<times> string \<times> datetime) list" where
  "with_key key entries = filter (\<lambda>(k, f, key', dt). key' = key) entries"

definition last_file :: "(kind \<times> string \<times> string \<times> datetime) list \<Rightarrow> string option" where
  "last_file entries = (if entries = [] then None else Some (fst (snd (last entries))))"

text \<open>\<open>date_groups[key][kind]\<close>, with \<open>None\<close> also when the key is not in the dict.\<close>

definition slot :: "(string \<times> files) list \<Rightarrow> string \<Rightarrow> kind \<Rightarrow> string option" where
  "slot date_groups key k = (case map_of date_groups key of None \<Rightarrow> None | Some fs \<Rightarrow> fs k)"

section \<open>A small run used to exercise the statements\<close>

text \<open>
  The scenario of the specification on a one-point grid: a pressure-level file with
  \<open>t\<close> and \<open>z\<close> on thirteen levels, a surface file with \<open>t2m\<close>, a precipitation file
  with \<open>tp\<close>.
\<close>

definition example_pl :: "nat dataset" where
  "example_pl =
     \<lparr>data_vars = [(''t'', NDArray [1, 13, 1, 1] [0, 1, 2, 3, 4, 5, 6, 7, 8, 9, 10, 11, 12]),
                   (''z'', NDArray [1, 13, 1, 1] [20, 21, 22, 23, 24, 25, 26, 27, 28, 29, 30, 31, 32])],
      latitude = Some [45], longitude = Some [7]\<rparr>"

definition example_sl :: "nat dataset" where
  "example_sl =
     \<lparr>data_vars = [(''t2m'', NDArray [1, 1, 1] [40])], latitude = Some [45], longitude = Some [7]\<rparr>"

definition example_tp :: "nat dataset" where
  "example_tp =
     \<lparr>data_vars = [(''tp'', NDArray [1, 1, 1] [50])], latitude = Some [45], longitude = Some [7]\<rparr>"

definition example_env :: "nat env" where
  "example_env =
     \<lparr>open_dataset = (\<lambda>k _. Some (case k of PL \<Rightarrow> example_pl | SL \<Rightarrow> example_sl | TP \<Rightarrow> example_tp)),
      np_promote = map elems,
      to_netcdf = (\<lambda>_. WriteOk),
      reopen_ok = (\<lambda>_. True)\<rparr>"

definition example_key :: string where
  "example_key = ''20180201_0000''"

definition example_files :: "files" where
  "example_files =
     (\<lambda>_. None)(PL := Some ''era5_20180201_0000_pl.nc'',
                  SL := Some ''era5_20180201_0000_sl.nc'',
                  TP := Some ''era5_20180201_0000_tp.nc'')"



text \<open>
  The same environment with a write that fails before the file exists, with a write that
  fails after the file was created, and with a failing verification read.
\<close>

definition example_env_write_fails :: "nat env" where
  "example_env_write_fails = example_env\<lparr>to_netcdf := (\<lambda>_. WriteFailed)\<rparr>"

definition example_env_write_partial :: "nat env" where
  "example_env_write_partial = example_env\<lparr>to_netcdf := (\<lambda>_. WriteFailedPartial)\<rparr>"

definition example_env_verify_fails :: "nat env" where
  "example_env_verify_fails = example_env\<lparr>reopen_ok := (\<lambda>_. False)\<rparr>"

text \<open>
  A pressure-level file whose only variable has fourteen levels and \<open>t\<close> time steps,
  and the environment that serves it.
\<close>

definition oversized_pl :: "nat \<Rightarrow> nat dataset" where
  "oversized_pl t =
     \<lparr>data_vars = [(''t'', NDArray [t, 14, 1, 1] (replicate (t * 14) 0))],
      latitude = Some [45], longitude = Some [7]\<rparr>"

definition oversized_env :: "nat \<Rightarrow> nat env" where
  "oversized_env t =
     example_env\<lparr>open_dataset :=
       (\<lambda>k _. Some (case k of PL \<Rightarrow> oversized_pl t | SL \<Rightarrow> example_sl | TP \<Rightarrow> example_tp))\<rparr>"




text \<open>The four time steps of one day, for one kind.\<close>

definition day_files :: "string \<Rightarrow> string list" where
  "day_files sfx =
     [''era5_20180201_0000_'' @ sfx @ ''.nc'', ''era5_20180201_0600_'' @ sfx @ ''.nc'',
      ''era5_20180201_1200_'' @ sfx @ ''.nc'', ''era5_20180201_1800_'' @ sfx @ ''.nc'']"

section \<open>Properties of identity extraction\<close>

lemma split_on_ne [simp]: "split_on d s \<noteq> []"
  by (induction s) (auto split: list.splits)

lemma split_on_append_sep: "split_on d (s @ d # t) = split_on d s @ split_on d t"
  by (induction s) (auto split: list.splits)

lemma split_on_no_sep: "d \<notin> set s \<Longrightarrow> split_on d s = [s]"
  by (induction s) auto

lemma join_split_on: "join [d] (split_on d s) = s"
proof (induction s)
  case Nil
  then show ?case by simp
next
  case (Cons c cs)
  obtain p ps where P: "split_on d cs = p # ps"
    by (cases "split_on d cs") auto
  show ?case
  proof (cases "c = d")
    case True
    with Cons P show ?thesis by simp
  next
    case False
    with Cons P show ?thesis by (cases ps) auto
  qed
qed

lemma scan_parts_filter:
  "scan_parts ps (d, t) =
     ((if filter is_date_token ps = [] then d else Some (last (filter is_date_token ps))),
      (if filter is_time_token ps = [] then t else Some (last (filter is_time_token ps))))"
  by (induction ps arbitrary: d t) (auto simp: is_date_token_def is_time_token_def)

lemma rfind_none: "c \<notin> set t \<Longrightarrow> rfind c t = None"
  by (induction t) auto

lemma rfind_last: "c \<notin> set t \<Longrightarrow> rfind c (s @ c # t) = Some (length s)"
  by (induction s) (auto simp: rfind_none)

lemma stem_nc: "s \<noteq> [] \<Longrightarrow> stem (s @ ''.nc'') = s"
  using rfind_last[of "CHR ''.''" "''nc''" s] by (simp add: stem_def)

lemma ascii_digit_no_sep: "list_all ascii_digit s \<Longrightarrow> CHR ''_'' \<notin> set s"
  by (auto simp: list_all_iff ascii_digit_def)

lemma ascii_digits_isdigit: "s \<noteq> [] \<Longrightarrow> list_all ascii_digit s \<Longrightarrow> str_isdigit s"
  by (auto simp: str_isdigit_def char_isdigit_def list_all_iff)

lemma extract_unfold:
  "extract_datetime_from_filename f =
     (if date_tokens (stem f) \<noteq> [] \<and> time_tokens (stem f) \<noteq> []
      then last (date_tokens (stem f)) @ ''_'' @ last (time_tokens (stem f))
      else if kind_suffixed (stem f) then join ''_'' (butlast (split_on (CHR ''_'') (stem f)))
      else stem f)"
  by (simp add: extract_datetime_from_filename_def Let_def scan_parts_filter
        date_tokens_def time_tokens_def)

lemma strip_kind_suffix:
  assumes "sfx = ''_pl'' \<or> sfx = ''_sl'' \<or> sfx = ''_tp''"
  shows "join ''_'' (butlast (split_on (CHR ''_'') (base @ sfx))) = base"
proof -
  obtain k where k: "sfx = CHR ''_'' # k" "CHR ''_'' \<notin> set k"
    using assms by auto
  have "split_on (CHR ''_'') (base @ sfx) = split_on (CHR ''_'') base @ [k]"
    using k by (simp add: split_on_append_sep split_on_no_sep)
  then show ?thesis
    using join_split_on[of "CHR ''_''" base] by simp
qed

lemma kind_suffixed_append:
  "sfx = ''_pl'' \<or> sfx = ''_sl'' \<or> sfx = ''_tp'' \<Longrightarrow> kind_suffixed (base @ sfx)"
  by (auto simp: kind_suffixed_def endswith_def)

lemma era5_tokens:
  assumes "length d8 = 8" "list_all ascii_digit d8" "length d4 = 4" "list_all ascii_digit d4"
  shows "split_on (CHR ''_'') (''era5_'' @ d8 @ ''_'' @ d4 @ ''_'' @ suffix)
           = [''era5'', d8, d4] @ split_on (CHR ''_'') suffix"
proof -
  have a: "''era5_'' @ d8 @ ''_'' @ d4 @ ''_'' @ suffix
             = ''era5'' @ CHR ''_'' # (d8 @ CHR ''_'' # (d4 @ CHR ''_'' # suffix))"
    by simp
  show ?thesis
    unfolding a split_on_append_sep
    using assms by (simp add: split_on_no_sep ascii_digit_no_sep)
qed

lemma era5_not_token: "\<not> is_date_token ''era5''" "\<not> is_time_token ''era5''"
  by (simp_all add: is_date_token_def is_time_token_def str_isdigit_def char_isdigit_def
        ascii_digit_def)

text \<open>
  C2, as the code has it.  For a file name \<open>era5_{8 digits}_{4 digits}_{suffix}.nc\<close> whose
  suffix has no token that is itself eight or four digits long and all digits, the
  result is \<open>{8 digits}_{4 digits}\<close>.  In general, when the stem has a date token and a
  time token the result joins the last of each; when it does not have both and ends in
  \<open>_pl\<close>, \<open>_sl\<close> or \<open>_tp\<close> the result is the stem without that suffix; otherwise the
  result is the stem.  The function has no failing branch.
\<close>

theorem extract_datetime_from_filename_cases:
  "(length d8 = 8 \<and> list_all ascii_digit d8 \<and> length d4 = 4 \<and> list_all ascii_digit d4
      \<and> list_all (\<lambda>p. \<not> is_date_token p \<and> \<not> is_time_token p) (split_on (CHR ''_'') suffix)
     \<longrightarrow> extract_datetime_from_filename (''era5_'' @ d8 @ ''_'' @ d4 @ ''_'' @ suffix @ ''.nc'')
           = d8 @ ''_'' @ d4)
   \<and> (date_tokens (stem f) \<noteq> [] \<and> time_tokens (stem f) \<noteq> []
     \<longrightarrow> extract_datetime_from_filename f
           = last (date_tokens (stem f)) @ ''_'' @ last (time_tokens (stem f)))
   \<and> (\<not> (date_tokens (stem g) \<noteq> [] \<and> time_tokens (stem g) \<noteq> [])
        \<and> stem g = base @ sfx \<and> (sfx = ''_pl'' \<or> sfx = ''_sl'' \<or> sfx = ''_tp'')
     \<longrightarrow> extract_datetime_from_filename g = base)
   \<and> (\<not> (date_tokens (stem h) \<noteq> [] \<and> time_tokens (stem h) \<noteq> [])
        \<and> \<not> kind_suffixed (stem h)
     \<longrightarrow> extract_datetime_from_filename h = stem h)"
proof (intro conjI impI)
  assume A: "length d8 = 8 \<and> list_all ascii_digit d8 \<and> length d4 = 4 \<and> list_all ascii_digit d4
      \<and> list_all (\<lambda>p. \<not> is_date_token p \<and> \<not> is_time_token p) (split_on (CHR ''_'') suffix)"
  define nm where "nm = ''era5_'' @ d8 @ ''_'' @ d4 @ ''_'' @ suffix"
  have "nm \<noteq> []"
    by (simp add: nm_def)
  then have st: "stem (nm @ ''.nc'') = nm"
    by (rule stem_nc)
  have toks: "split_on (CHR ''_'') nm = [''era5'', d8, d4] @ split_on (CHR ''_'') suffix"
    unfolding nm_def using A by (intro era5_tokens) simp_all
  have none: "filter is_date_token (split_on (CHR ''_'') suffix) = []"
             "filter is_time_token (split_on (CHR ''_'') suffix) = []"
    using A by (auto simp: filter_empty_conv list_all_iff)
  have "d8 \<noteq> []" "d4 \<noteq> []"
    using A by auto
  then have dig: "str_isdigit d8" "str_isdigit d4"
    using A by (simp_all add: ascii_digits_isdigit)
  have d8: "is_date_token d8" "\<not> is_time_token d8"
    using A dig by (simp_all add: is_date_token_def is_time_token_def)
  have d4: "is_time_token d4" "\<not> is_date_token d4"
    using A dig by (simp_all add: is_date_token_def is_time_token_def)
  have "date_tokens nm = [d8]" "time_tokens nm = [d4]"
    unfolding date_tokens_def time_tokens_def toks
    by (simp_all add: none d8 d4 era5_not_token)
  then have "extract_datetime_from_filename (nm @ ''.nc'') = d8 @ ''_'' @ d4"
    unfolding extract_unfold st by simp
  moreover have "''era5_'' @ d8 @ ''_'' @ d4 @ ''_'' @ suffix @ ''.nc'' = nm @ ''.nc''"
    by (simp add: nm_def)
  ultimately show "extract_datetime_from_filename
               (''era5_'' @ d8 @ ''_'' @ d4 @ ''_'' @ suffix @ ''.nc'') = d8 @ ''_'' @ d4"
    by (simp only:)
next
  assume "date_tokens (stem f) \<noteq> [] \<and> time_tokens (stem f) \<noteq> []"
  then show "extract_datetime_from_filename f
               = last (date_tokens (stem f)) @ ''_'' @ last (time_tokens (stem f))"
    by (simp add: extract_unfold)
next
  assume B: "\<not> (date_tokens (stem g) \<noteq> [] \<and> time_tokens (stem g) \<noteq> [])
        \<and> stem g = base @ sfx \<and> (sfx = ''_pl'' \<or> sfx = ''_sl'' \<or> sfx = ''_tp'')"
  then have "kind_suffixed (stem g)"
    using kind_suffixed_append[of sfx base] by simp
  moreover have "join ''_'' (butlast (split_on (CHR ''_'') (stem g))) = base"
    using B strip_kind_suffix[of sfx base] by simp
  moreover have "\<not> (date_tokens (stem g) \<noteq> [] \<and> time_tokens (stem g) \<noteq> [])"
    using B by blast
  ultimately show "extract_datetime_from_filename g = base"
    by (simp only: extract_unfold if_False if_True)
next
  assume "\<not> (date_tokens (stem h) \<noteq> [] \<and> time_tokens (stem h) \<noteq> []) \<and> \<not> kind_suffixed (stem h)"
  then have "\<not> (date_tokens (stem h) \<noteq> [] \<and> time_tokens (stem h) \<noteq> [])"
    "\<not> kind_suffixed (stem h)"
    by blast+
  then show "extract_datetime_from_filename h = stem h"
    by (simp only: extract_unfold if_False)
qed

theorem extract_datetime_from_filename_cases_witness:
  "extract_datetime_from_filename ''era5_20180201_0000_pl.nc'' = ''20180201_0000''
   \<and> extract_datetime_from_filename ''a_20180201_x_0600_20180202.nc'' = ''20180202_0600''
   \<and> extract_datetime_from_filename ''era5_201802_pl.nc'' = ''era5_201802''
   \<and> extract_datetime_from_filename ''notes_2018.nc'' = ''notes_2018''"
proof -
  have s2: "stem ''a_20180201_x_0600_20180202.nc'' = ''a_20180201_x_0600_20180202''"
    and s3: "stem ''era5_201802_pl.nc'' = ''era5_201802'' @ ''_pl''"
    and s4: "stem ''notes_2018.nc'' = ''notes_2018''"
    by code_simp+
  have t2: "date_tokens ''a_20180201_x_0600_20180202'' = [''20180201'', ''20180202'']"
           "time_tokens ''a_20180201_x_0600_20180202'' = [''0600'']"
    and t3: "date_tokens ''era5_201802_pl'' = []"
    and t4: "date_tokens ''notes_2018'' = []" "\<not> kind_suffixed ''notes_2018''"
    by code_simp+
  have t1: "\<not> is_date_token ''pl''" "\<not> is_time_token ''pl''"
    by (simp_all add: is_date_token_def is_time_token_def)
  show ?thesis
    using extract_datetime_from_filename_cases[of "''20180201''" "''0000''" "''pl''"
        "''a_20180201_x_0600_20180202.nc''" "''era5_201802_pl.nc''" "''era5_201802''" "''_pl''"
        "''notes_2018.nc''"]
    by (simp add: s2 s3 s4 t1 t2 t3 t4 ascii_digit_def)
qed

text \<open>
  C2 as stated fails when the suffix is itself a four-digit token: it replaces the time.
\<close>

theorem extract_datetime_from_filename_counterexample:
  "extract_datetime_from_filename (''era5_'' @ ''20180101'' @ ''_'' @ ''0000'' @ ''_'' @ ''1234'' @ ''.nc'')
     = ''20180101_1234''
   \<and> extract_datetime_from_filename (''era5_'' @ ''20180101'' @ ''_'' @ ''0000'' @ ''_'' @ ''1234'' @ ''.nc'')
     \<noteq> ''20180101'' @ ''_'' @ ''0000''"
  by code_simp

section \<open>Properties of the temporal filter and the grouping\<close>

lemma dt_not_lt_iff_le: "\<not> dt_lt a b \<longleftrightarrow> dt_le b a"
  unfolding dt_le_def dt_lt_def
  by (cases a; cases b) auto

lemma scan_files_mem:
  "(k', file, key, dt) \<in> set (scan_files k files start_dt end_dt) \<longleftrightarrow>
     k' = k \<and> file \<in> set files \<and> key = extract_datetime_from_filename file
     \<and> parse_datetime_string key = Some dt
     \<and> (case start_dt of None \<Rightarrow> True | Some s \<Rightarrow> dt_le s dt)
     \<and> (case end_dt of None \<Rightarrow> True | Some e \<Rightarrow> dt_le dt e)"
proof (induction files)
  case Nil
  then show ?case by simp
next
  case (Cons f fs)
  show ?case
  proof (cases "parse_datetime_string (extract_datetime_from_filename f)")
    case None
    then show ?thesis using Cons by (auto simp: Let_def)
  next
    case (Some d)
    then show ?thesis
      using Cons
      by (auto simp: Let_def dt_not_lt_iff_le[symmetric] split: option.splits)
  qed
qed

lemma set_slot_slots:
  "(key', fs) \<in> set (set_slot groups key k file) \<Longrightarrow> fs k' = Some f \<Longrightarrow>
     (key' = key \<and> k' = k \<and> f = file) \<or> (\<exists>fs'. (key', fs') \<in> set groups \<and> fs' k' = Some f)"
proof (induction groups)
  case Nil
  then show ?case by (auto split: if_splits)
next
  case (Cons g groups)
  obtain key0 fs0 where g: "g = (key0, fs0)" by (cases g)
  show ?case
  proof (cases "key0 = key")
    case True
    with Cons.prems g show ?thesis
      by (fastforce split: if_splits)
  next
    case False
    with Cons.prems g have "(key', fs) = (key0, fs0) \<or> (key', fs) \<in> set (set_slot groups key k file)"
      by auto
    then show ?thesis
    proof
      assume "(key', fs) = (key0, fs0)"
      with Cons.prems g show ?thesis by auto
    next
      assume "(key', fs) \<in> set (set_slot groups key k file)"
      from Cons.IH[OF this Cons.prems(2)] show ?thesis by auto
    qed
  qed
qed

lemma group_files_slots:
  "(key, fs) \<in> set (group_files entries groups) \<Longrightarrow> fs k = Some f \<Longrightarrow>
     (\<exists>dt. (k, f, key, dt) \<in> set entries) \<or> (\<exists>fs'. (key, fs') \<in> set groups \<and> fs' k = Some f)"
proof (induction entries groups rule: group_files.induct)
  case (1 date_groups)
  then show ?case by auto
next
  case (2 k0 fl datetime_str file_dt rest date_groups)
  from "2.prems" have "(key, fs) \<in> set (group_files rest (set_slot date_groups datetime_str k0 fl))"
    by simp
  from "2.IH"[OF this "2.prems"(2)] show ?case
  proof
    assume "\<exists>dt. (k, f, key, dt) \<in> set rest"
    then show ?thesis by auto
  next
    assume "\<exists>fs'. (key, fs') \<in> set (set_slot date_groups datetime_str k0 fl) \<and> fs' k = Some f"
    then obtain fs' where "(key, fs') \<in> set (set_slot date_groups datetime_str k0 fl)"
      "fs' k = Some f" by blast
    from set_slot_slots[OF this] show ?thesis by auto
  qed
qed

lemma date_groups_of_slots:
  assumes "(key, fs) \<in> set (date_groups_of pl_files sl_files tp_files start_dt end_dt)"
    and "fs k = Some f"
  shows "\<exists>dt files. (k, f, key, dt) \<in> set (scan_files k files start_dt end_dt)"
proof -
  from group_files_slots[OF assms[unfolded date_groups_of_def]]
  obtain dt where "(k, f, key, dt) \<in> set (scan_files PL pl_files start_dt end_dt
                    @ scan_files SL sl_files start_dt end_dt
                    @ scan_files TP tp_files start_dt end_dt)"
    by auto
  then show ?thesis
    by (auto simp: scan_files_mem)
qed

section \<open>What one group adds to the state\<close>

lemma try_group_frame:
  "out_files (fst (try_group env st key a b c))
     = out_files st ++ out_files (fst (try_group env empty_state key a b c))"
  "processed_count (fst (try_group env st key a b c))
     = processed_count st + processed_count (fst (try_group env empty_state key a b c))"
  "diagnostics (fst (try_group env st key a b c)) = diagnostics st"
  "snd (try_group env st key a b c) = snd (try_group env empty_state key a b c)"
  unfolding try_group_def opened_def closed_def empty_state_def Let_def
  by (simp_all split: option.splits sum.splits write_result.splits)

lemma try_group_writes:
  "n \<noteq> output_name key \<Longrightarrow> out_files (fst (try_group env empty_state key a b c)) n = None"
  unfolding try_group_def opened_def closed_def empty_state_def Let_def
  by (simp split: option.splits sum.splits write_result.splits)

lemma try_group_count:
  "processed_count (fst (try_group env empty_state key a b c))
     = (if snd (try_group env empty_state key a b c) = None then 1 else 0)"
  unfolding try_group_def opened_def closed_def empty_state_def Let_def
  by (simp split: option.splits sum.splits write_result.splits)

lemma process_group_complete:
  assumes "fs PL = Some a" "fs SL = Some b" "fs TP = Some c"
  shows "process_group env st (key, fs)
           = log (fst (try_group env st key a b c)) key (group_outcome env (key, fs))"
  using assms try_group_frame(4)[of env st key a b c]
  by (cases "try_group env st key a b c")
     (auto simp: process_group_def group_outcome_def split: option.splits)

lemma process_group_incomplete:
  assumes "\<not> complete fs"
  shows "process_group env st (key, fs) = log st key Skipped"
    and "group_outcome env (key, fs) = Skipped"
  using assms
  by (auto simp: process_group_def group_outcome_def complete_def split: option.splits)

lemma process_group_frame:
  "out_files (process_group env st g) = out_files st ++ out_files (process_group env empty_state g)"
  "processed_count (process_group env st g)
     = processed_count st + processed_count (process_group env empty_state g)"
  "diagnostics (process_group env st g) = diagnostics st @ [(fst g, group_outcome env g)]"
proof -
  obtain key fs where g: "g = (key, fs)" by (cases g)
  have "out_files (process_group env st g) = out_files st ++ out_files (process_group env empty_state g)
     \<and> processed_count (process_group env st g)
         = processed_count st + processed_count (process_group env empty_state g)
     \<and> diagnostics (process_group env st g) = diagnostics st @ [(fst g, group_outcome env g)]"
  proof (cases "complete fs")
    case True
    then obtain a b c where s: "fs PL = Some a" "fs SL = Some b" "fs TP = Some c"
      by (auto simp: complete_def)
    show ?thesis
      unfolding g process_group_complete[OF s]
      using try_group_frame(1,2,3)[of env st key a b c]
      by (simp add: log_def try_group_frame(3))
  next
    case False
    show ?thesis
      unfolding g process_group_incomplete[OF False]
      by (simp add: log_def empty_state_def)
  qed
  then show "out_files (process_group env st g) = out_files st ++ out_files (process_group env empty_state g)"
    "processed_count (process_group env st g)
     = processed_count st + processed_count (process_group env empty_state g)"
    "diagnostics (process_group env st g) = diagnostics st @ [(fst g, group_outcome env g)]"
    by blast+
qed

lemma process_group_writes:
  assumes "\<not> complete fs \<or> n \<noteq> output_name key"
  shows "out_files (process_group env empty_state (key, fs)) n = None"
proof (cases "complete fs")
  case True
  then obtain a b c where s: "fs PL = Some a" "fs SL = Some b" "fs TP = Some c"
    by (auto simp: complete_def)
  show ?thesis
    unfolding process_group_complete[OF s]
    using try_group_writes[of n key env a b c] True assms
    by (auto simp: log_def)
next
  case False
  show ?thesis
    unfolding process_group_incomplete[OF False]
    by (simp add: log_def empty_state_def)
qed

lemma process_group_count:
  "processed_count (process_group env empty_state g)
     = (if group_outcome env g = Merged then 1 else 0)"
proof -
  obtain key fs where g: "g = (key, fs)" by (cases g)
  show ?thesis
  proof (cases "complete fs")
    case True
    then obtain a b c where s: "fs PL = Some a" "fs SL = Some b" "fs TP = Some c"
      by (auto simp: complete_def)
    show ?thesis
      unfolding g process_group_complete[OF s]
      using try_group_count[of env key a b c] s
      by (auto simp: log_def group_outcome_def split: option.splits)
  next
    case False
    show ?thesis
      unfolding g process_group_incomplete[OF False]
      by (simp add: log_def empty_state_def)
  qed
qed

lemma process_groups_frame:
  "out_files (process_groups env st gs) = out_files st ++ out_files (process_groups env empty_state gs)"
  "processed_count (process_groups env st gs)
     = processed_count st + processed_count (process_groups env empty_state gs)"
  "diagnostics (process_groups env st gs) = diagnostics st @ map (\<lambda>g. (fst g, group_outcome env g)) gs"
proof -
  have "out_files (process_groups env st gs) = out_files st ++ out_files (process_groups env empty_state gs)
     \<and> processed_count (process_groups env st gs)
         = processed_count st + processed_count (process_groups env empty_state gs)
     \<and> diagnostics (process_groups env st gs)
         = diagnostics st @ map (\<lambda>g. (fst g, group_outcome env g)) gs"
  proof (induction gs arbitrary: st)
    case Nil
    then show ?case by (simp add: empty_state_def)
  next
    case (Cons g gs)
    have e: "out_files (process_groups env (process_group env empty_state g) gs)
               = out_files (process_group env empty_state g)
                   ++ out_files (process_groups env empty_state gs)"
            "processed_count (process_groups env (process_group env empty_state g) gs)
               = processed_count (process_group env empty_state g)
                   + processed_count (process_groups env empty_state gs)"
      using Cons.IH[of "process_group env empty_state g"] by blast+
    show ?case
      using Cons.IH[of "process_group env st g"] process_group_frame[of env st g]
      by (simp add: e)
  qed
  then show "out_files (process_groups env st gs) = out_files st ++ out_files (process_groups env empty_state gs)"
  "processed_count (process_groups env st gs)
     = processed_count st + processed_count (process_groups env empty_state gs)"
  "diagnostics (process_groups env st gs) = diagnostics st @ map (\<lambda>g. (fst g, group_outcome env g)) gs"
    by blast+
qed

lemma process_groups_count:
  "processed_count (process_groups env empty_state gs)
     = length (filter (\<lambda>g. group_outcome env g = Merged) gs)"
proof (induction gs)
  case Nil
  then show ?case by (simp add: empty_state_def)
next
  case (Cons g gs)
  show ?case
    using process_groups_frame(2)[of env "process_group env empty_state g" gs] Cons
    by (simp add: process_group_count)
qed

lemma process_groups_untouched:
  assumes "\<forall>(key, fs) \<in> set gs. complete fs \<longrightarrow> output_name key \<noteq> n"
  shows "out_files (process_groups env st gs) n = out_files st n"
  using assms
proof (induction gs arbitrary: st)
  case Nil
  then show ?case by simp
next
  case (Cons g gs)
  obtain key fs where g: "g = (key, fs)" by (cases g)
  have "out_files (process_group env empty_state (key, fs)) n = None"
    using Cons.prems g by (intro process_group_writes) auto
  then have "out_files (process_group env st g) n = out_files st n"
    using process_group_frame(1)[of env st g] g by (simp add: map_add_def)
  moreover have "out_files (process_groups env (process_group env st g) gs) n
                   = out_files (process_group env st g) n"
    using Cons.prems by (intro Cons.IH) auto
  ultimately show ?case by simp
qed

lemma merge_data_Some:
  assumes "merge_data env pl_files sl_files tp_files start_time end_time st = Some st'"
  obtains start_dt end_dt where
    "parse_bound start_time = Inr start_dt" "parse_bound end_time = Inr end_dt"
    "st' = process_groups env (st\<lparr>processed_count := 0, diagnostics := []\<rparr>)
             (date_groups_of pl_files sl_files tp_files start_dt end_dt)"
  using assms by (auto simp: merge_data_def split: sum.splits)

section \<open>Incomplete groups\<close>

lemma set_slot_keys:
  "map fst (set_slot groups key k fl)
     = (if key \<in> set (map fst groups) then map fst groups else map fst groups @ [key])"
  by (induction groups) (force split: if_splits)+

lemma group_files_distinct:
  "distinct (map fst groups) \<Longrightarrow> distinct (map fst (group_files entries groups))"
proof (induction entries groups rule: group_files.induct)
  case (1 date_groups)
  then show ?case by simp
next
  case (2 k fl datetime_str file_dt rest date_groups)
  have "distinct (map fst (set_slot date_groups datetime_str k fl))"
    using "2.prems" by (simp add: set_slot_keys)
  then show ?case using "2.IH" by simp
qed

lemma date_groups_of_distinct:
  "distinct (map fst (date_groups_of pl_files sl_files tp_files start_dt end_dt))"
  by (simp add: date_groups_of_def group_files_distinct)

lemma output_name_inj: "output_name a = output_name b \<longleftrightarrow> a = b"
  by (simp add: output_name_def)

lemma distinct_keys_unique:
  "distinct (map fst gs) \<Longrightarrow> (key, fs) \<in> set gs \<Longrightarrow> (key, fs') \<in> set gs \<Longrightarrow> fs = fs'"
  by (induction gs) (auto simp: rev_image_eqI)

lemma merge_data_diagnostics:
  assumes "merge_data env pl_files sl_files tp_files start_time end_time st = Some st'"
    and "parse_bound start_time = Inr start_dt" and "parse_bound end_time = Inr end_dt"
  shows "diagnostics st' = map (\<lambda>g. (fst g, group_outcome env g))
                             (date_groups_of pl_files sl_files tp_files start_dt end_dt)"
    and "processed_count st'
           = length (filter (\<lambda>g. group_outcome env g = Merged)
                       (date_groups_of pl_files sl_files tp_files start_dt end_dt))"
    and "out_files st' = out_files st
           ++ out_files (process_groups env empty_state
                (date_groups_of pl_files sl_files tp_files start_dt end_dt))"
proof -
  let ?gs = "date_groups_of pl_files sl_files tp_files start_dt end_dt"
  let ?st0 = "st\<lparr>processed_count := 0, diagnostics := []\<rparr>"
  have st': "st' = process_groups env ?st0 ?gs"
    using assms by (simp add: merge_data_def)
  show "diagnostics st' = map (\<lambda>g. (fst g, group_outcome env g)) ?gs"
    unfolding st' process_groups_frame(3)[of env ?st0 ?gs] by simp
  show "processed_count st' = length (filter (\<lambda>g. group_outcome env g = Merged) ?gs)"
    unfolding st' process_groups_frame(2)[of env ?st0 ?gs] process_groups_count by simp
  show "out_files st' = out_files st ++ out_files (process_groups env empty_state ?gs)"
    unfolding st' process_groups_frame(1)[of env ?st0 ?gs] by simp
qed

text \<open>
  C4: a key whose group lacks a pressure-level, a surface-level or a precipitation file
  is reported as skipped and nothing else; the run leaves the output file of that key
  as it found it.
\<close>

theorem incomplete_group_never_merged:
  assumes "merge_data env pl_files sl_files tp_files start_time end_time st = Some st'"
    and "parse_bound start_time = Inr start_dt" and "parse_bound end_time = Inr end_dt"
    and "(key, fs) \<in> set (date_groups_of pl_files sl_files tp_files start_dt end_dt)"
    and "fs PL = None \<or> fs SL = None \<or> fs TP = None"
  shows "out_files st' (output_name key) = out_files st (output_name key)
         \<and> (key, Skipped) \<in> set (diagnostics st')
         \<and> (key, Merged) \<notin> set (diagnostics st')
         \<and> (\<forall>e. (key, Failed e) \<notin> set (diagnostics st'))"
proof -
  let ?gs = "date_groups_of pl_files sl_files tp_files start_dt end_dt"
  let ?st0 = "st\<lparr>processed_count := 0, diagnostics := []\<rparr>"
  have st': "st' = process_groups env ?st0 ?gs"
    using assms(1,2,3) by (simp add: merge_data_def)
  have inc: "\<not> complete fs"
    using assms(5) by (auto simp: complete_def)
  have uniq: "fs' = fs" if "(key, fs') \<in> set ?gs" for fs'
    using distinct_keys_unique[OF date_groups_of_distinct that assms(4)] .
  have "\<forall>(key', fs') \<in> set ?gs. complete fs' \<longrightarrow> output_name key' \<noteq> output_name key"
    using uniq inc by (auto simp: output_name_inj)
  then have out: "out_files st' (output_name key) = out_files st (output_name key)"
    unfolding st' by (simp add: process_groups_untouched)
  have diag: "diagnostics st' = map (\<lambda>g. (fst g, group_outcome env g)) ?gs"
    using merge_data_diagnostics(1)[OF assms(1,2,3)] .
  have sk: "group_outcome env (key, fs) = Skipped"
    using process_group_incomplete(2)[OF inc] .
  have "(key, Skipped) \<in> set (diagnostics st')"
    unfolding diag using assms(4) sk by force
  moreover have "oc = Skipped" if "(key, oc) \<in> set (diagnostics st')" for oc
  proof -
    from that obtain fs' where "(key, fs') \<in> set ?gs" "oc = group_outcome env (key, fs')"
      unfolding diag by auto
    with uniq sk show ?thesis by auto
  qed
  ultimately show ?thesis using out by auto
qed

lemma example_extract:
  "extract_datetime_from_filename ''era5_20180201_0000_pl.nc'' = ''20180201_0000''"
  "extract_datetime_from_filename ''era5_20180201_0000_sl.nc'' = ''20180201_0000''"
  "extract_datetime_from_filename ''era5_20180201_0000_tp.nc'' = ''20180201_0000''"
  by code_simp+

lemma example_parse:
  "parse_datetime_string ''20180201_0000''
     = Some \<lparr>dt_year = 2018, dt_month = 2, dt_day = 1, dt_hour = 0, dt_minute = 0\<rparr>"
  by code_simp

lemma example_groups:
  "date_groups_of [''era5_20180201_0000_pl.nc''] [''era5_20180201_0000_sl.nc'']
     [''era5_20180201_0000_tp.nc''] None None = [(example_key, example_files)]"
  by (simp add: date_groups_of_def example_extract example_parse example_key_def
        example_files_def)

lemma example_groups_no_tp:
  "date_groups_of [''era5_20180201_0000_pl.nc''] [''era5_20180201_0000_sl.nc''] [] None None
     = [(example_key, example_files(TP := None))]"
  by (simp add: date_groups_of_def example_extract example_parse example_key_def
        example_files_def fun_upd_twist)

theorem incomplete_group_never_merged_witness:
  "merge_data example_env [''era5_20180201_0000_pl.nc''] [''era5_20180201_0000_sl.nc''] []
      None None empty_state \<noteq> None
   \<and> out_files (the (merge_data example_env [''era5_20180201_0000_pl.nc'']
            [''era5_20180201_0000_sl.nc''] [] None None empty_state)) (output_name example_key)
       = None
   \<and> diagnostics (the (merge_data example_env [''era5_20180201_0000_pl.nc'']
            [''era5_20180201_0000_sl.nc''] [] None None empty_state))
       = [(example_key, Skipped)]"
proof -
  let ?run = "merge_data example_env [''era5_20180201_0000_pl.nc'']
                [''era5_20180201_0000_sl.nc''] [] None None empty_state"
  have pb: "parse_bound None = Inr None"
    by (simp add: parse_bound_def)
  obtain st' where st': "?run = Some st'"
    by (simp add: merge_data_def pb)
  have mem: "(example_key, example_files(TP := None))
               \<in> set (date_groups_of [''era5_20180201_0000_pl.nc'']
                        [''era5_20180201_0000_sl.nc''] [] None None)"
    by (simp add: example_groups_no_tp)
  have inc: "(example_files(TP := None)) PL = None \<or> (example_files(TP := None)) SL = None
               \<or> (example_files(TP := None)) TP = None"
    by simp
  have d: "diagnostics st' = [(example_key, Skipped)]"
    using st' by (auto simp: merge_data_def pb example_groups_no_tp process_group_def log_def
        example_files_def)
  from incomplete_group_never_merged[OF st' pb pb mem inc]
  have "out_files st' (output_name example_key) = out_files empty_state (output_name example_key)"
    by blast
  then show ?thesis
    using st' d by (simp add: empty_state_def)
qed

section \<open>What the groups hold\<close>

lemma scan_files_kind: "e \<in> set (scan_files k0 fs start_dt end_dt) \<Longrightarrow> fst e = k0"
  by (cases e) (auto simp: scan_files_mem)

lemma filter_kind_scan:
  "filter (\<lambda>(k', f, key', dt). k' = k \<and> key' = key) (scan_files k0 fs start_dt end_dt)
     = (if k0 = k then with_key key (scan_files k0 fs start_dt end_dt) else [])"
proof (cases "k0 = k")
  case True
  have "filter (\<lambda>(k', f, key', dt). k' = k \<and> key' = key) (scan_files k0 fs start_dt end_dt)
          = filter (\<lambda>(k', f, key', dt). key' = key) (scan_files k0 fs start_dt end_dt)"
    using True by (intro filter_cong) (auto dest: scan_files_kind)
  then show ?thesis using True by (simp add: with_key_def)
next
  case False
  then show ?thesis by (auto simp: filter_empty_conv dest: scan_files_kind)
qed

lemma slot_set_slot:
  "slot (set_slot groups key0 k0 f0) key k
     = (if key = key0 \<and> k = k0 then Some f0 else slot groups key k)"
  by (induction groups) (auto simp: slot_def)

lemma group_files_slot:
  "slot (group_files entries groups) key k
     = (case last_file (filter (\<lambda>(k', f, key', dt). k' = k \<and> key' = key) entries) of
          Some f \<Rightarrow> Some f
        | None \<Rightarrow> slot groups key k)"
proof (induction entries groups rule: group_files.induct)
  case (1 date_groups)
  then show ?case by (simp add: last_file_def)
next
  case (2 k0 f0 key0 dt0 rest date_groups)
  show ?case
    by (simp add: "2.IH" slot_set_slot last_file_def)
qed

lemma group_files_keys:
  "key \<in> set (map fst (group_files entries groups))
     \<longleftrightarrow> key \<in> set (map fst groups) \<or> (\<exists>k f dt. (k, f, key, dt) \<in> set entries)"
proof (induction entries groups rule: group_files.induct)
  case (1 date_groups)
  then show ?case by simp
next
  case (2 k0 f0 key0 dt0 rest date_groups)
  have "key \<in> set (map fst (set_slot date_groups key0 k0 f0))
          \<longleftrightarrow> key = key0 \<or> key \<in> set (map fst date_groups)"
    by (auto simp: set_slot_keys)
  then show ?case using "2.IH" by auto
qed

lemma date_groups_of_slot:
  "slot (date_groups_of pl_files sl_files tp_files start_dt end_dt) key k
     = last_file (with_key key (scan_files k (listing pl_files sl_files tp_files k) start_dt end_dt))"
proof -
  have "slot (date_groups_of pl_files sl_files tp_files start_dt end_dt) key k
          = last_file (filter (\<lambda>(k', f, key', dt). k' = k \<and> key' = key)
              (scan_files PL pl_files start_dt end_dt @ scan_files SL sl_files start_dt end_dt
                 @ scan_files TP tp_files start_dt end_dt))"
    unfolding date_groups_of_def group_files_slot
    by (simp add: slot_def split: option.splits)
  then show ?thesis
    unfolding filter_append filter_kind_scan by (cases k) (simp_all add: listing_def)
qed

lemma date_groups_of_keys:
  "key \<in> set (map fst (date_groups_of pl_files sl_files tp_files start_dt end_dt))
     \<longleftrightarrow> (\<exists>k. with_key key (scan_files k (listing pl_files sl_files tp_files k) start_dt end_dt)
                 \<noteq> [])"
proof -
  have mem: "with_key key es \<noteq> [] \<longleftrightarrow> (\<exists>k f dt. (k, f, key, dt) \<in> set es)" for es
    by (auto simp: with_key_def filter_empty_conv)
  have "key \<in> set (map fst (date_groups_of pl_files sl_files tp_files start_dt end_dt))
     \<longleftrightarrow> with_key key (scan_files PL pl_files start_dt end_dt) \<noteq> []
          \<or> with_key key (scan_files SL sl_files start_dt end_dt) \<noteq> []
          \<or> with_key key (scan_files TP tp_files start_dt end_dt) \<noteq> []"
    unfolding date_groups_of_def group_files_keys mem by auto
  also have "\<dots> \<longleftrightarrow> (\<exists>k. with_key key
        (scan_files k (listing pl_files sl_files tp_files k) start_dt end_dt) \<noteq> [])"
  proof
    assume "with_key key (scan_files PL pl_files start_dt end_dt) \<noteq> []
          \<or> with_key key (scan_files SL sl_files start_dt end_dt) \<noteq> []
          \<or> with_key key (scan_files TP tp_files start_dt end_dt) \<noteq> []"
    then show "\<exists>k. with_key key
        (scan_files k (listing pl_files sl_files tp_files k) start_dt end_dt) \<noteq> []"
      by (elim disjE) (rule exI[of _ PL], simp add: listing_def,
                       rule exI[of _ SL], simp add: listing_def,
                       rule exI[of _ TP], simp add: listing_def)
  next
    assume "\<exists>k. with_key key
        (scan_files k (listing pl_files sl_files tp_files k) start_dt end_dt) \<noteq> []"
    then obtain k where "with_key key
        (scan_files k (listing pl_files sl_files tp_files k) start_dt end_dt) \<noteq> []" by blast
    then show "with_key key (scan_files PL pl_files start_dt end_dt) \<noteq> []
          \<or> with_key key (scan_files SL sl_files start_dt end_dt) \<noteq> []
          \<or> with_key key (scan_files TP tp_files start_dt end_dt) \<noteq> []"
      by (cases k) (simp_all add: listing_def)
  qed
  finally show ?thesis .
qed

lemma group_slot:
  assumes "(key, fs) \<in> set (date_groups_of pl_files sl_files tp_files start_dt end_dt)"
  shows "slot (date_groups_of pl_files sl_files tp_files start_dt end_dt) key k = fs k"
proof -
  have "map_of (date_groups_of pl_files sl_files tp_files start_dt end_dt) key = Some fs"
    using assms date_groups_of_distinct by (intro map_of_is_SomeI) auto
  then show ?thesis by (simp add: slot_def)
qed

text \<open>
  C3: a scanned file is kept for grouping exactly when its key parses as a date-time
  that is not before the start bound, if there is one, and not after the end bound, if
  there is one.  The groups are built from the kept files and from nothing else: a key
  is a group exactly when some kept file carries it, and the slot of a kind in the
  group of a key holds the last kept file of that kind with that key, or nothing when
  there is none.  A file whose key does not parse is in no slot of any group.  The run
  works through exactly these groups, built with the bounds it parsed.
\<close>

theorem temporal_filter_inclusion:
  "((k, fl, key, dt) \<in> set (scan_files k files start_dt end_dt) \<longleftrightarrow>
      fl \<in> set files \<and> key = extract_datetime_from_filename fl
      \<and> parse_datetime_string key = Some dt
      \<and> (case start_dt of None \<Rightarrow> True | Some s \<Rightarrow> dt_le s dt)
      \<and> (case end_dt of None \<Rightarrow> True | Some e \<Rightarrow> dt_le dt e))
   \<and> (key' \<in> set (map fst (date_groups_of pl_files sl_files tp_files start_dt end_dt))
        \<longleftrightarrow> (\<exists>k. with_key key'
                   (scan_files k (listing pl_files sl_files tp_files k) start_dt end_dt) \<noteq> []))
   \<and> slot (date_groups_of pl_files sl_files tp_files start_dt end_dt) key' k'
        = last_file (with_key key'
            (scan_files k' (listing pl_files sl_files tp_files k') start_dt end_dt))
   \<and> ((key', fs) \<in> set (date_groups_of pl_files sl_files tp_files start_dt end_dt)
        \<longrightarrow> fs k' = last_file (with_key key'
              (scan_files k' (listing pl_files sl_files tp_files k') start_dt end_dt)))
   \<and> (parse_datetime_string (extract_datetime_from_filename file') = None \<longrightarrow>
        (\<forall>(key'', fs') \<in> set (date_groups_of pl_files sl_files tp_files start_dt end_dt).
           \<forall>k''. fs' k'' \<noteq> Some file'))
   \<and> (merge_data env pl_files sl_files tp_files start_time end_time st = Some st'
        \<and> parse_bound start_time = Inr start_dt \<and> parse_bound end_time = Inr end_dt
        \<longrightarrow> map fst (diagnostics st')
              = map fst (date_groups_of pl_files sl_files tp_files start_dt end_dt))"
proof -
  let ?gs = "date_groups_of pl_files sl_files tp_files start_dt end_dt"
  have A: "(k, fl, key, dt) \<in> set (scan_files k files start_dt end_dt) \<longleftrightarrow>
      fl \<in> set files \<and> key = extract_datetime_from_filename fl
      \<and> parse_datetime_string key = Some dt
      \<and> (case start_dt of None \<Rightarrow> True | Some s \<Rightarrow> dt_le s dt)
      \<and> (case end_dt of None \<Rightarrow> True | Some e \<Rightarrow> dt_le dt e)"
    by (simp add: scan_files_mem)
  have B: "key' \<in> set (map fst ?gs)
        \<longleftrightarrow> (\<exists>k. with_key key'
                   (scan_files k (listing pl_files sl_files tp_files k) start_dt end_dt) \<noteq> [])"
    by (rule date_groups_of_keys)
  have C: "slot ?gs key' k' = last_file (with_key key'
            (scan_files k' (listing pl_files sl_files tp_files k') start_dt end_dt))"
    by (rule date_groups_of_slot)
  have D: "fs k' = last_file (with_key key'
              (scan_files k' (listing pl_files sl_files tp_files k') start_dt end_dt))"
    if "(key', fs) \<in> set ?gs"
    using group_slot[OF that, of k'] C by simp
  have E: "\<forall>(key'', fs') \<in> set ?gs. \<forall>k''. fs' k'' \<noteq> Some file'"
    if bad: "parse_datetime_string (extract_datetime_from_filename file') = None"
  proof (clarify)
    fix key'' fs' k''
    assume "(key'', fs') \<in> set ?gs" "fs' k'' = Some file'"
    from date_groups_of_slots[OF this] bad show False
      by (auto simp: scan_files_mem)
  qed
  have F: "map fst (diagnostics st') = map fst ?gs"
    if "merge_data env pl_files sl_files tp_files start_time end_time st = Some st'
        \<and> parse_bound start_time = Inr start_dt \<and> parse_bound end_time = Inr end_dt"
    using merge_data_diagnostics(1)[of env pl_files sl_files tp_files start_time end_time st st'
        start_dt end_dt] that
    by (simp add: comp_def)
  show ?thesis using A B C D E F by blast
qed

lemma day_scan:
  "scan_files PL (day_files ''pl'')
     (Some \<lparr>dt_year = 2018, dt_month = 2, dt_day = 1, dt_hour = 6, dt_minute = 0\<rparr>)
     (Some \<lparr>dt_year = 2018, dt_month = 2, dt_day = 1, dt_hour = 12, dt_minute = 0\<rparr>)
   = [(PL, ''era5_20180201_0600_pl.nc'', ''20180201_0600'',
         \<lparr>dt_year = 2018, dt_month = 2, dt_day = 1, dt_hour = 6, dt_minute = 0\<rparr>),
      (PL, ''era5_20180201_1200_pl.nc'', ''20180201_1200'',
         \<lparr>dt_year = 2018, dt_month = 2, dt_day = 1, dt_hour = 12, dt_minute = 0\<rparr>)]"
  by code_simp

lemma day_keys:
  "map fst (date_groups_of (day_files ''pl'') (day_files ''sl'') (day_files ''tp'')
     (Some \<lparr>dt_year = 2018, dt_month = 2, dt_day = 1, dt_hour = 6, dt_minute = 0\<rparr>)
     (Some \<lparr>dt_year = 2018, dt_month = 2, dt_day = 1, dt_hour = 12, dt_minute = 0\<rparr>))
   = [''20180201_0600'', ''20180201_1200'']"
  by code_simp

lemma day_bounds:
  "parse_bound (Some ''2018-02-01 06:00'')
     = Inr (Some \<lparr>dt_year = 2018, dt_month = 2, dt_day = 1, dt_hour = 6, dt_minute = 0\<rparr>)"
  "parse_bound (Some ''2018-02-01 12:00'')
     = Inr (Some \<lparr>dt_year = 2018, dt_month = 2, dt_day = 1, dt_hour = 12, dt_minute = 0\<rparr>)"
  by code_simp+

theorem temporal_filter_inclusion_witness:
  "(PL, ''era5_20180201_0600_pl.nc'', ''20180201_0600'',
      \<lparr>dt_year = 2018, dt_month = 2, dt_day = 1, dt_hour = 6, dt_minute = 0\<rparr>)
     \<in> set (scan_files PL (day_files ''pl'')
              (Some \<lparr>dt_year = 2018, dt_month = 2, dt_day = 1, dt_hour = 6, dt_minute = 0\<rparr>)
              (Some \<lparr>dt_year = 2018, dt_month = 2, dt_day = 1, dt_hour = 12, dt_minute = 0\<rparr>))
   \<and> slot (date_groups_of (day_files ''pl'') (day_files ''sl'') (day_files ''tp'')
              (Some \<lparr>dt_year = 2018, dt_month = 2, dt_day = 1, dt_hour = 6, dt_minute = 0\<rparr>)
              (Some \<lparr>dt_year = 2018, dt_month = 2, dt_day = 1, dt_hour = 12, dt_minute = 0\<rparr>))
        ''20180201_1200'' PL = Some ''era5_20180201_1200_pl.nc''
   \<and> slot (date_groups_of (day_files ''pl'') (day_files ''sl'') (day_files ''tp'')
              (Some \<lparr>dt_year = 2018, dt_month = 2, dt_day = 1, dt_hour = 6, dt_minute = 0\<rparr>)
              (Some \<lparr>dt_year = 2018, dt_month = 2, dt_day = 1, dt_hour = 12, dt_minute = 0\<rparr>))
        ''20180201_0000'' PL = None
   \<and> map fst (diagnostics (the (merge_data example_env (day_files ''pl'') (day_files ''sl'')
        (day_files ''tp'') (Some ''2018-02-01 06:00'') (Some ''2018-02-01 12:00'') empty_state)))
       = [''20180201_0600'', ''20180201_1200'']"
proof -
  let ?d6 = "\<lparr>dt_year = 2018, dt_month = 2, dt_day = 1, dt_hour = 6, dt_minute = 0\<rparr>"
  let ?d12 = "\<lparr>dt_year = 2018, dt_month = 2, dt_day = 1, dt_hour = 12, dt_minute = 0\<rparr>"
  let ?run = "merge_data example_env (day_files ''pl'') (day_files ''sl'')
        (day_files ''tp'') (Some ''2018-02-01 06:00'') (Some ''2018-02-01 12:00'') empty_state"
  obtain st' where run: "?run = Some st'"
    by (simp add: merge_data_def day_bounds)
  have l: "listing (day_files ''pl'') (day_files ''sl'') (day_files ''tp'') PL = day_files ''pl''"
    by (simp add: listing_def)
  note T = temporal_filter_inclusion[of PL "''era5_20180201_0600_pl.nc''" "''20180201_0600''" ?d6
      "day_files ''pl''" "Some ?d6" "Some ?d12" _ "day_files ''pl''" "day_files ''sl''"
      "day_files ''tp''" PL _ _ example_env "Some ''2018-02-01 06:00''"
      "Some ''2018-02-01 12:00''" empty_state st']
  have s12: "slot (date_groups_of (day_files ''pl'') (day_files ''sl'') (day_files ''tp'')
               (Some ?d6) (Some ?d12)) ''20180201_1200'' PL = Some ''era5_20180201_1200_pl.nc''"
    using T[of "''20180201_1200''"] unfolding l day_scan
    by (simp add: with_key_def last_file_def)
  have s0: "slot (date_groups_of (day_files ''pl'') (day_files ''sl'') (day_files ''tp'')
               (Some ?d6) (Some ?d12)) ''20180201_0000'' PL = None"
    using T[of "''20180201_0000''"] unfolding l day_scan
    by (simp add: with_key_def last_file_def)
  have d: "map fst (diagnostics st')
             = map fst (date_groups_of (day_files ''pl'') (day_files ''sl'') (day_files ''tp'')
                 (Some ?d6) (Some ?d12))"
    using T[of "''20180201_1200''"] run day_bounds by simp
  have m: "(PL, ''era5_20180201_0600_pl.nc'', ''20180201_0600'', ?d6)
             \<in> set (scan_files PL (day_files ''pl'') (Some ?d6) (Some ?d12))"
    unfolding day_scan by simp
  have d': "map fst (diagnostics st') = [''20180201_0600'', ''20180201_1200'']"
    using d unfolding day_keys .
  have r: "the ?run = st'"
    using run by simp
  show ?thesis
    unfolding r by (intro conjI m s12 s0 d')
qed

section \<open>Properties of the flattener\<close>


lemma level_loop_overflow:
  "\<exists>i \<in> set idxs. \<not> i < length pressure_levels \<Longrightarrow> level_loop var d idxs acc = Inl IndexError"
proof (induction idxs arbitrary: acc)
  case Nil
  then show ?case by simp
next
  case (Cons i idxs)
  obtain ad vn where acc: "acc = (ad, vn)" by (cases acc)
  show ?case
  proof (cases "i < length pressure_levels")
    case True
    with Cons show ?thesis unfolding acc by auto
  next
    case False
    then show ?thesis unfolding acc by simp
  qed
qed

lemma level_loop_len:
  "level_loop var d idxs (ad, vn) = Inr (ad', vn') \<Longrightarrow> length ad = length vn
     \<Longrightarrow> length ad' = length vn'"
  by (induction idxs arbitrary: ad vn) (auto split: if_splits)

lemma flatten_pl_len:
  "flatten_pl vars (ad, vn) = Inr (ad', vn') \<Longrightarrow> length ad = length vn
     \<Longrightarrow> length ad' = length vn'"
proof (induction vars arbitrary: ad vn)
  case Nil
  then show ?case by simp
next
  case (Cons v vars)
  obtain var data where v: "v = (var, data)" by (cases v)
  show ?case
  proof (cases "ndim data = 4")
    case False
    with Cons v show ?thesis by auto
  next
    case True
    with Cons.prems v obtain sq ad1 vn1 where
      "level_loop var sq [0..<hd (shape sq)] (ad, vn) = Inr (ad1, vn1)"
      "flatten_pl vars (ad1, vn1) = Inr (ad', vn')"
      by (auto split: sum.splits)
    with Cons.IH[of ad1 vn1] level_loop_len[of var sq _ ad vn ad1 vn1] Cons.prems(2)
    show ?thesis by simp
  qed
qed

lemma flatten_single_len:
  "flatten_single vars (ad, vn) = Inr (ad', vn') \<Longrightarrow> length ad = length vn
     \<Longrightarrow> length ad' = length vn'"
proof (induction vars arbitrary: ad vn)
  case Nil
  then show ?case by simp
next
  case (Cons v vars)
  obtain var data where v: "v = (var, data)" by (cases v)
  from Cons.prems v show ?case
    by (auto split: if_splits sum.splits dest!: Cons.IH)
qed













lemma dict_set_ne: "dict_set d k v \<noteq> []"
  by (cases d) (auto split: if_splits)

lemma dict_from_ne: "ps \<noteq> [] \<or> d \<noteq> [] \<Longrightarrow> dict_from d ps \<noteq> []"
proof (induction ps arbitrary: d)
  case Nil
  then show ?case by simp
next
  case (Cons p ps)
  obtain k v where p: "p = (k, v)" by (cases p)
  show ?case unfolding p using Cons.IH[of "dict_set d k v"] by (simp add: dict_set_ne)
qed



lemma fill_data_vars_dict_from:
  "fill_data_vars m es dv = dict_from dv (map (\<lambda>(i, n). (n, index0 m i)) es)"
  by (induction m es dv rule: fill_data_vars.induct) simp_all





lemma build_record_ne:
  assumes "build_record promote key ds p s t (ad, vn) = Inr r" "length ad = length vn"
  shows "rec_data_vars r \<noteq> []"
proof -
  from assms(1) obtain merged where m: "np_stack promote ad = Inr merged"
    by (auto simp: build_record_def split: sum.splits)
  then have "ad \<noteq> []" by (auto simp: np_stack_def)
  then have "enumerate 0 vn \<noteq> []" using assms(2) by (cases vn) auto
  then have "fill_data_vars merged (enumerate 0 vn) [] \<noteq> []"
    unfolding fill_data_vars_dict_from by (intro dict_from_ne) simp
  with assms(1) m show ?thesis
    by (auto simp: build_record_def Let_def split: option.splits if_splits)
qed


section \<open>The flat variable list of a merged record\<close>







section \<open>Variables of another dimensionality\<close>

lemma flatten_single_positions:
  "flatten_single vars (ad0, vn0) = Inr (ad, vn) \<Longrightarrow>
     \<exists>ad'. ad = ad0 @ ad' \<and> vn = vn0 @ map fst vars \<and> length ad' = length vars
       \<and> (\<forall>i < length vars. ndim (snd (vars ! i)) \<noteq> 3 \<longrightarrow> ad' ! i = snd (vars ! i))"
proof (induction vars arbitrary: ad0 vn0)
  case Nil
  then show ?case by simp
next
  case (Cons v vars)
  obtain var data where v: "v = (var, data)" by (cases v)
  from Cons.prems v obtain x where
    step: "flatten_single vars (ad0 @ [x], vn0 @ [var]) = Inr (ad, vn)"
    and x: "ndim data \<noteq> 3 \<longrightarrow> x = data"
    by (auto split: if_splits sum.splits)
  from Cons.IH[OF step] obtain ad' where
    ih: "ad = (ad0 @ [x]) @ ad'" "vn = (vn0 @ [var]) @ map fst vars" "length ad' = length vars"
      "\<forall>i < length vars. ndim (snd (vars ! i)) \<noteq> 3 \<longrightarrow> ad' ! i = snd (vars ! i)"
    by blast
  have "\<forall>i < length (v # vars). ndim (snd ((v # vars) ! i)) \<noteq> 3
          \<longrightarrow> (x # ad') ! i = snd ((v # vars) ! i)"
  proof (intro allI impI)
    fix i assume "i < length (v # vars)" "ndim (snd ((v # vars) ! i)) \<noteq> 3"
    then show "(x # ad') ! i = snd ((v # vars) ! i)"
      using x ih(4) v by (cases i) auto
  qed
  then show ?case
    using ih(1,2,3) v by (intro exI[of _ "x # ad'"]) simp
qed

lemma flatten_pl_skips:
  "ndim data \<noteq> 4 \<Longrightarrow> flatten_pl (vs1 @ (var, data) # vs2) acc = flatten_pl (vs1 @ vs2) acc"
proof (induction vs1 arbitrary: acc)
  case Nil
  then show ?case by simp
next
  case (Cons v vs1)
  obtain var0 data0 where v: "v = (var0, data0)" by (cases v)
  show ?case
    unfolding v using Cons by (simp split: sum.splits)
qed

text \<open>
  C5, as the code has it.  A surface-level or precipitation variable whose array is not
  3-D is appended as it is, under its raw name, at its place in the flat list.  A
  pressure-level variable whose array is not 4-D adds nothing to the flat list: the
  flattener returns what it returns without that variable.
\<close>

theorem off_dimension_variables:
  "(i < length vars \<and> vars ! i = (var, data) \<and> ndim data \<noteq> 3
      \<and> flatten_single vars (all_data0, var_names0) = Inr (all_data, var_names)
     \<longrightarrow> all_data ! (length all_data0 + i) = data \<and> var_names ! (length var_names0 + i) = var
         \<and> length all_data = length all_data0 + length vars
         \<and> length var_names = length var_names0 + length vars)
   \<and> (ndim data' \<noteq> 4
     \<longrightarrow> flatten_pl (vs1 @ (var', data') # vs2) acc = flatten_pl (vs1 @ vs2) acc)"
proof -
  have A: "all_data ! (length all_data0 + i) = data \<and> var_names ! (length var_names0 + i) = var
         \<and> length all_data = length all_data0 + length vars
         \<and> length var_names = length var_names0 + length vars"
    if H: "i < length vars \<and> vars ! i = (var, data) \<and> ndim data \<noteq> 3
      \<and> flatten_single vars (all_data0, var_names0) = Inr (all_data, var_names)"
  proof -
    from H obtain ad' where
      p: "all_data = all_data0 @ ad'" "var_names = var_names0 @ map fst vars"
        "length ad' = length vars"
        "\<forall>j < length vars. ndim (snd (vars ! j)) \<noteq> 3 \<longrightarrow> ad' ! j = snd (vars ! j)"
      using flatten_single_positions[of vars all_data0 var_names0 all_data var_names] by blast
    have "ad' ! i = data" using p(4) H by auto
    then show ?thesis
      using p(1,2,3) H by (simp add: nth_append)
  qed
  have B: "flatten_pl (vs1 @ (var', data') # vs2) acc = flatten_pl (vs1 @ vs2) acc"
    if "ndim data' \<noteq> 4"
    using that by (rule flatten_pl_skips)
  show ?thesis using A B by blast
qed

theorem off_dimension_variables_witness:
  "flatten_single [(''t2m'', NDArray [1, 1, 1] [40]), (''lsm'', NDArray [1, 1] [1::nat])]
       ([], []) = Inr ([NDArray [1, 1] [40], NDArray [1, 1] [1]], [''t2m'', ''lsm''])
   \<and> flatten_pl ([(''t'', NDArray [1, 1, 1, 1] [3::nat])] @ (''sp'', NDArray [1, 1, 1] [9]) # [])
        ([], []) = flatten_pl ([(''t'', NDArray [1, 1, 1, 1] [3])] @ []) ([], [])"
proof -
  have e: "flatten_single [(''t2m'', NDArray [1, 1, 1] [40]), (''lsm'', NDArray [1, 1] [1::nat])]
       ([], []) = Inr ([NDArray [1, 1] [40], NDArray [1, 1] [1]], [''t2m'', ''lsm''])"
    by (simp add: ndim_def squeeze0_def)
  have n: "ndim (NDArray [1, 1] [1::nat]) \<noteq> 3" "ndim (NDArray [1, 1, 1] [9::nat]) \<noteq> 4"
    by (simp_all add: ndim_def)
  show ?thesis
    using off_dimension_variables[of 1
        "[(''t2m'', NDArray [1, 1, 1] [40]), (''lsm'', NDArray [1, 1] [1::nat])]"
        "''lsm''" "NDArray [1, 1] [1]" "[]" "[]" "[NDArray [1, 1] [40], NDArray [1, 1] [1]]"
        "[''t2m'', ''lsm'']" "NDArray [1, 1, 1] [9::nat]"
        "[(''t'', NDArray [1, 1, 1, 1] [3::nat])]" "''sp''" "[]" "([], [])"] e n
    by simp
qed

text \<open>
  C5 as stated fails for the pressure-level file: a 3-D variable there is not appended.
\<close>

theorem off_dimension_variables_counterexample:
  "flatten_pl [(''sp'', NDArray [1, 1, 1] [9::nat])] ([], []) = Inr ([], [])
   \<and> ndim (NDArray [1, 1, 1] [9::nat]) \<noteq> 4"
  by (simp add: ndim_def)

section \<open>More levels than pressures\<close>

lemma level_loop_errors: "level_loop var d idxs acc = Inl e \<Longrightarrow> e = IndexError"
proof (induction idxs arbitrary: acc)
  case Nil
  then show ?case by simp
next
  case (Cons i idxs)
  obtain ad vn where acc: "acc = (ad, vn)" by (cases acc)
  from Cons show ?case unfolding acc by (auto split: if_splits)
qed

lemma squeeze0_errors: "squeeze0 a = Inl e \<Longrightarrow> e = ValueError"
  by (auto simp: squeeze0_def split: list.splits if_splits)

lemma flatten_pl_errors:
  "flatten_pl vars acc = Inl e \<Longrightarrow> e = IndexError \<or> e = ValueError"
proof (induction vars arbitrary: acc)
  case Nil
  then show ?case by simp
next
  case (Cons v vars)
  obtain var data where v: "v = (var, data)" by (cases v)
  from Cons.prems show ?case
    unfolding v
    by (auto split: if_splits sum.splits dest: squeeze0_errors level_loop_errors Cons.IH)
qed

lemma flatten_single_errors:
  "flatten_single vars acc = Inl e \<Longrightarrow> e = ValueError"
proof (induction vars arbitrary: acc)
  case Nil
  then show ?case by simp
next
  case (Cons v vars)
  obtain var data where v: "v = (var, data)" by (cases v)
  obtain ad vn where acc: "acc = (ad, vn)" by (cases acc)
  from Cons.prems show ?case
    unfolding v acc
    by (auto split: if_splits sum.splits dest: squeeze0_errors Cons.IH)
qed

lemma overflow_head:
  assumes "ndim data = 4" "13 < shape data ! 1"
  shows "flatten_pl ((var, data) # vars) acc
           = (if hd (shape data) = 1 then Inl IndexError else Inl ValueError)"
proof -
  from assms(1) have "length (shape data) = Suc (Suc (Suc (Suc 0)))"
    by (simp add: ndim_def)
  then obtain t l h w where sh: "shape data = [t, l, h, w]"
    by (auto simp: length_Suc_conv)
  have l: "13 < l" using assms(2) sh by simp
  show ?thesis
  proof (cases "t = 1")
    case False
    then show ?thesis using sh assms(1) by (simp add: squeeze0_def)
  next
    case True
    have "\<exists>i \<in> set [0..<l]. \<not> i < length pressure_levels"
      using l by (intro bexI[of _ 13]) (simp_all add: pressure_levels_def)
    then have "level_loop var (NDArray [l, h, w] (elems data)) [0..<l] acc = Inl IndexError"
      by (rule level_loop_overflow)
    then show ?thesis using sh assms(1) True by (simp add: squeeze0_def)
  qed
qed

lemma flatten_pl_overflow:
  assumes "(var, data) \<in> set vars" "ndim data = 4" "13 < shape data ! 1"
  shows "flatten_pl vars acc = Inl IndexError \<or> flatten_pl vars acc = Inl ValueError"
  using assms(1)
proof (induction vars arbitrary: acc)
  case Nil
  then show ?case by simp
next
  case (Cons v vars)
  obtain var0 data0 where v: "v = (var0, data0)" by (cases v)
  show ?case
  proof (cases "v = (var, data)")
    case True
    then show ?thesis using overflow_head[OF assms(2,3), of var vars acc] by auto
  next
    case False
    then have mem: "(var, data) \<in> set vars" using Cons.prems by auto
    show ?thesis
    proof (cases "flatten_pl (v # vars) acc")
      case (Inl e)
      then show ?thesis using flatten_pl_errors[OF Inl] by auto
    next
      case (Inr r)
      then obtain acc' where "flatten_pl vars acc' = Inr r"
        unfolding v by (auto split: if_splits sum.splits)
      with Cons.IH[OF mem, of acc'] show ?thesis by auto
    qed
  qed
qed

lemma flatten_pl_overflow_singleton:
  assumes "(var, data) \<in> set vars" "ndim data = 4" "13 < shape data ! 1"
    and "\<forall>(v, a) \<in> set vars. ndim a = 4 \<longrightarrow> hd (shape a) = 1"
  shows "flatten_pl vars acc = Inl IndexError"
  using assms(1,4)
proof (induction vars arbitrary: acc)
  case Nil
  then show ?case by simp
next
  case (Cons v vars)
  obtain var0 data0 where v: "v = (var0, data0)" by (cases v)
  show ?case
  proof (cases "v = (var, data)")
    case True
    then show ?thesis using overflow_head[OF assms(2,3), of var vars acc] Cons.prems(2) assms(2)
      by auto
  next
    case False
    then have mem: "(var, data) \<in> set vars" using Cons.prems by auto
    have rest: "\<forall>(v, a) \<in> set vars. ndim a = 4 \<longrightarrow> hd (shape a) = 1"
      using Cons.prems(2) by auto
    show ?thesis
    proof (cases "ndim data0 = 4")
      case False
      then show ?thesis unfolding v using Cons.IH[OF mem rest] by simp
    next
      case True
      then have "hd (shape data0) = 1" using Cons.prems(2) v by auto
      then obtain sq where sq: "squeeze0 data0 = Inr sq"
        using True by (cases "shape data0") (auto simp: squeeze0_def ndim_def)
      show ?thesis
      proof (cases "level_loop var0 sq [0..<hd (shape sq)] acc")
        case (Inl e)
        then show ?thesis unfolding v using True sq level_loop_errors[OF Inl] by simp
      next
        case (Inr acc')
        then show ?thesis unfolding v using True sq Cons.IH[OF mem rest, of acc'] by simp
      qed
    qed
  qed
qed

lemma try_group_pl_error:
  assumes "open_dataset env PL file_pl = Some ds_pl"
    and "flatten_pl (data_vars ds_pl) ([], []) = Inl e"
  shows "try_group env st key file_pl file_sl file_tp = (opened st PL file_pl, Some e)"
  using assms by (simp add: try_group_def Let_def)

text \<open>
  C10, as the code has it.  A complete group whose pressure-level file opens and holds
  a 4-D variable with more than thirteen entries along its level axis fails while
  flattening, with \<open>IndexError\<close> when every 4-D variable of that file has a time axis
  of length one, and otherwise with \<open>IndexError\<close> or with the \<open>ValueError\<close> of an
  earlier \<open>squeeze\<close>; either way the group writes nothing, is not counted, and the loop
  goes on with the groups that follow.
\<close>

theorem oversized_level_axis:
  assumes "open_dataset env PL file_pl = Some ds_pl"
    and "(var, data) \<in> set (data_vars ds_pl)" and "ndim data = 4" and "13 < shape data ! 1"
    and "fs PL = Some file_pl" and "fs SL = Some file_sl" and "fs TP = Some file_tp"
  shows "(group_outcome env (key, fs) = Failed IndexError
            \<or> group_outcome env (key, fs) = Failed ValueError)
         \<and> ((\<forall>(v, a) \<in> set (data_vars ds_pl). ndim a = 4 \<longrightarrow> hd (shape a) = 1)
              \<longrightarrow> group_outcome env (key, fs) = Failed IndexError)
         \<and> out_files (process_group env st (key, fs)) = out_files st
         \<and> processed_count (process_group env st (key, fs)) = processed_count st
         \<and> process_groups env st ((key, fs) # gs)
             = process_groups env
                 (log (opened st PL file_pl) key (group_outcome env (key, fs))) gs"
proof -
  from flatten_pl_overflow[OF assms(2,3,4), of "([], [])"]
  obtain e where e: "flatten_pl (data_vars ds_pl) ([], []) = Inl e"
    "e = IndexError \<or> e = ValueError"
    by auto
  have tg: "try_group env s key file_pl file_sl file_tp = (opened s PL file_pl, Some e)" for s
    using try_group_pl_error[OF assms(1) e(1)] .
  have oc: "group_outcome env (key, fs) = Failed e"
    using assms(5,6,7) by (simp add: group_outcome_def tg)
  have pg: "process_group env st (key, fs) = log (opened st PL file_pl) key (Failed e)"
    using assms(5,6,7) by (simp add: process_group_def tg)
  have single: "group_outcome env (key, fs) = Failed IndexError"
    if "\<forall>(v, a) \<in> set (data_vars ds_pl). ndim a = 4 \<longrightarrow> hd (shape a) = 1"
    using flatten_pl_overflow_singleton[OF assms(2,3,4) that, of "([], [])"] e(1) oc by simp
  show ?thesis
    using e(2) oc single pg by (auto simp: log_def opened_def)
qed

lemma oversized_eval:
  "group_outcome (oversized_env 1) (example_key, example_files) = Failed IndexError"
  "group_outcome (oversized_env 2) (example_key, example_files) = Failed ValueError"
  by code_simp+

theorem oversized_level_axis_witness:
  "group_outcome (oversized_env 1) (example_key, example_files) = Failed IndexError
   \<and> out_files (process_group (oversized_env 1) empty_state (example_key, example_files))
       = out_files empty_state
   \<and> processed_count (process_group (oversized_env 1) empty_state (example_key, example_files))
       = processed_count (empty_state :: nat state)"
proof -
  have o: "open_dataset (oversized_env 1) PL ''era5_20180201_0000_pl.nc'' = Some (oversized_pl 1)"
    by (simp add: oversized_env_def)
  have m: "(''t'', NDArray [1, 14, 1, 1] (replicate 14 (0::nat))) \<in> set (data_vars (oversized_pl 1))"
    by (simp add: oversized_pl_def)
  have n: "ndim (NDArray [1, 14, 1, 1] (replicate 14 (0::nat))) = 4"
    "13 < shape (NDArray [1, 14, 1, 1] (replicate 14 (0::nat))) ! 1"
    by (simp_all add: ndim_def)
  have f: "example_files PL = Some ''era5_20180201_0000_pl.nc''"
    "example_files SL = Some ''era5_20180201_0000_sl.nc''"
    "example_files TP = Some ''era5_20180201_0000_tp.nc''"
    by (simp_all add: example_files_def)
  have s: "\<forall>(v, a) \<in> set (data_vars (oversized_pl 1)). ndim a = 4 \<longrightarrow> hd (shape a) = 1"
    by (simp add: oversized_pl_def)
  show ?thesis
    using oversized_level_axis[OF o m n f, of example_key empty_state "[]"] s
    by blast
qed

text \<open>
  C10 as stated fails when the time axis is not of length one: \<open>squeeze(0)\<close> raises
  \<open>ValueError\<close> before any pressure is looked up.
\<close>

theorem oversized_level_axis_counterexample:
  "group_outcome (oversized_env 2) (example_key, example_files) = Failed ValueError
   \<and> group_outcome (oversized_env 2) (example_key, example_files) \<noteq> Failed IndexError
   \<and> data_vars (oversized_pl 2) = [(''t'', NDArray [2, 14, 1, 1] (replicate 28 0))]"
proof -
  have "data_vars (oversized_pl 2) = [(''t'', NDArray [2, 14, 1, 1] (replicate 28 0))]"
    by (simp add: oversized_pl_def)
  then show ?thesis
    using oversized_eval(2) by simp
qed

section \<open>Properties of the whole run\<close>

lemma flatten_chain_len:
  assumes "flatten_pl vs1 ([], []) = Inr (a1, n1)"
    and "flatten_single vs2 (a1, n1) = Inr (a2, n2)"
    and "flatten_single vs3 (a2, n2) = Inr (a3, n3)"
  shows "length a3 = length n3"
proof -
  have "length a1 = length n1" using flatten_pl_len[OF assms(1)] by simp
  then have "length a2 = length n2" using flatten_single_len[OF assms(2)] by simp
  then show ?thesis using flatten_single_len[OF assms(3)] by simp
qed

lemma written_record_ne:
  assumes "flatten_pl vs1 ([], []) = Inr (a1, n1)"
    and "flatten_single vs2 (a1, n1) = Inr (a2, n2)"
    and "flatten_single vs3 (a2, n2) = Inr (a3, n3)"
    and "build_record promote key ds p s t (a3, n3) = Inr r"
  shows "rec_data_vars r \<noteq> []"
  using build_record_ne[OF assms(4) flatten_chain_len[OF assms(1,2,3)]] .

lemma try_group_failed_no_write:
  assumes "snd (try_group env empty_state key a b c) = Some e"
    and "e \<noteq> OSError WriteOutput" and "e \<noteq> OSError VerifyOutput"
  shows "out_files (fst (try_group env empty_state key a b c)) n = None"
  using assms
  unfolding try_group_def opened_def closed_def empty_state_def Let_def
  by (auto split: option.splits sum.splits if_splits write_result.splits
        dest: written_record_ne)

lemma process_groups_untouched_gen:
  assumes "\<forall>g \<in> set gs. out_files (process_group env empty_state g) n = None"
  shows "out_files (process_groups env st gs) n = out_files st n"
  using assms
proof (induction gs arbitrary: st)
  case Nil
  then show ?case by simp
next
  case (Cons g gs)
  have "out_files (process_group env st g) n = out_files st n"
    using process_group_frame(1)[of env st g] Cons.prems by (simp add: map_add_def)
  moreover have "out_files (process_groups env (process_group env st g) gs) n
                   = out_files (process_group env st g) n"
    using Cons.prems by (intro Cons.IH) auto
  ultimately show ?case by simp
qed

lemma failed_group_no_write:
  assumes "group_outcome env (key, fs) = Failed e"
    and "e \<noteq> OSError WriteOutput" and "e \<noteq> OSError VerifyOutput"
  shows "out_files (process_group env empty_state (key, fs)) n = None"
proof (cases "complete fs")
  case False
  then show ?thesis by (simp add: process_group_writes)
next
  case True
  then obtain a b c where s: "fs PL = Some a" "fs SL = Some b" "fs TP = Some c"
    by (auto simp: complete_def)
  have "snd (try_group env empty_state key a b c) = Some e"
    using assms(1) s by (auto simp: group_outcome_def split: option.splits)
  from try_group_failed_no_write[OF this assms(2,3)] show ?thesis
    unfolding process_group_complete[OF s] by (simp add: log_def)
qed

section \<open>Failures stay within their group\<close>

lemma np_stack_errors: "np_stack promote ad = Inl e \<Longrightarrow> e = ValueError"
  by (auto simp: np_stack_def split: list.splits if_splits)

lemma build_record_errors:
  "build_record promote key ds p s t flat = Inl e \<Longrightarrow> e = ValueError \<or> e = AttributeError"
  by (auto simp: build_record_def Let_def
        split: prod.splits sum.splits option.splits if_splits dest: np_stack_errors)

lemma pre_write_errors:
  "flatten_pl vars acc = Inl e \<Longrightarrow> e \<noteq> OSError site"
  "flatten_single vars acc = Inl e \<Longrightarrow> e \<noteq> OSError site"
  "build_record promote key ds p s t flat = Inl e \<Longrightarrow> e \<noteq> OSError site"
  using flatten_pl_errors[of vars acc e] flatten_single_errors[of vars acc e]
    build_record_errors[of promote key ds p s t flat e]
  by auto

lemma try_group_verify_failed:
  assumes "snd (try_group env empty_state key a b c) = Some (OSError VerifyOutput)"
  shows "\<exists>r. out_files (fst (try_group env empty_state key a b c)) (output_name key)
               = Some (Written r)"
  using assms
  unfolding try_group_def opened_def closed_def empty_state_def Let_def
  by (auto split: option.splits sum.splits if_splits write_result.splits
        dest: pre_write_errors)

lemma try_group_write_failed:
  assumes "snd (try_group env empty_state key a b c) = Some (OSError WriteOutput)"
  shows "out_files (fst (try_group env empty_state key a b c)) (output_name key)
           = (case to_netcdf env (output_name key) of
                WriteFailedPartial \<Rightarrow> Some Truncated
              | _ \<Rightarrow> None)"
  using assms
  unfolding try_group_def opened_def closed_def empty_state_def Let_def
  by (auto split: option.splits sum.splits if_splits write_result.splits
        dest: written_record_ne pre_write_errors)

lemma failed_group_output:
  assumes "group_outcome env (key, fs) = Failed e"
  obtains a b c where "fs PL = Some a" "fs SL = Some b" "fs TP = Some c"
    "snd (try_group env empty_state key a b c) = Some e"
    "out_files (process_group env empty_state (key, fs))
       = out_files (fst (try_group env empty_state key a b c))"
proof -
  have "complete fs"
    using assms process_group_incomplete(2)[of fs env key] by auto
  then obtain a b c where s: "fs PL = Some a" "fs SL = Some b" "fs TP = Some c"
    by (auto simp: complete_def)
  have "snd (try_group env empty_state key a b c) = Some e"
    using assms s by (auto simp: group_outcome_def split: option.splits)
  moreover have "out_files (process_group env empty_state (key, fs))
       = out_files (fst (try_group env empty_state key a b c))"
    unfolding process_group_complete[OF s] by (simp add: log_def)
  ultimately show ?thesis using that s by blast
qed

lemma process_groups_at_key:
  assumes "distinct (map fst gs)" and "(key, fs) \<in> set gs"
  shows "out_files (process_groups env st gs) (output_name key)
           = (out_files st ++ out_files (process_group env empty_state (key, fs)))
               (output_name key)"
  using assms
proof (induction gs arbitrary: st)
  case Nil
  then show ?case by simp
next
  case (Cons g gs)
  obtain key' fs' where g: "g = (key', fs')" by (cases g)
  show ?case
  proof (cases "key' = key")
    case True
    then have same: "fs' = fs" and notin: "key \<notin> fst ` set gs"
      using Cons.prems g by (auto simp: rev_image_eqI)
    have "\<forall>g' \<in> set gs. out_files (process_group env empty_state g') (output_name key) = None"
    proof
      fix g' assume g': "g' \<in> set gs"
      obtain k2 f2 where e: "g' = (k2, f2)" by (cases g')
      then have "k2 \<noteq> key" using g' notin by force
      then show "out_files (process_group env empty_state g') (output_name key) = None"
        unfolding e by (intro process_group_writes) (simp add: output_name_inj)
    qed
    then have "out_files (process_groups env (process_group env st g) gs) (output_name key)
                 = out_files (process_group env st g) (output_name key)"
      by (rule process_groups_untouched_gen)
    then show ?thesis
      using process_group_frame(1)[of env st g] g True same by simp
  next
    case False
    then have mem: "(key, fs) \<in> set gs" and d: "distinct (map fst gs)"
      using Cons.prems g by auto
    have "out_files (process_group env empty_state (key', fs')) (output_name key) = None"
      using False by (intro process_group_writes) (simp add: output_name_inj)
    then have "out_files (process_group env st g) (output_name key)
                 = out_files st (output_name key)"
      using process_group_frame(1)[of env st g] g by (simp add: map_add_def)
    then show ?thesis
      using Cons.IH[OF d mem, of "process_group env st g"]
      by (simp add: map_add_def split: option.splits)
  qed
qed

text \<open>
  C7, as the code has it.  Every group of the run gets its diagnostic, in order, whatever
  happened to the groups before it: no failure of one group ends the loop.  The counter
  counts exactly the merged groups.  A group that failed before the write (opening a
  source, flattening, stacking, building the record) leaves the output file of its key
  as the run found it, and so does a group whose write fails before the file exists.
  A group whose write fails after creating the file leaves a truncated file, and a group
  that fails in the verification read keeps the file it wrote.
\<close>

theorem group_failures_are_contained:
  assumes "merge_data env pl_files sl_files tp_files start_time end_time st = Some st'"
    and "parse_bound start_time = Inr start_dt" and "parse_bound end_time = Inr end_dt"
  shows "map fst (diagnostics st')
           = map fst (date_groups_of pl_files sl_files tp_files start_dt end_dt)
         \<and> processed_count st' = length (filter (\<lambda>d. snd d = Merged) (diagnostics st'))
         \<and> (\<forall>key e. (key, Failed e) \<in> set (diagnostics st')
                \<and> e \<noteq> OSError WriteOutput \<and> e \<noteq> OSError VerifyOutput
              \<longrightarrow> out_files st' (output_name key) = out_files st (output_name key))
         \<and> (\<forall>key. (key, Failed (OSError WriteOutput)) \<in> set (diagnostics st')
              \<longrightarrow> out_files st' (output_name key)
                    = (case to_netcdf env (output_name key) of
                         WriteFailedPartial \<Rightarrow> Some Truncated
                       | _ \<Rightarrow> out_files st (output_name key)))
         \<and> (\<forall>key. (key, Failed (OSError VerifyOutput)) \<in> set (diagnostics st')
              \<longrightarrow> (\<exists>r. out_files st' (output_name key) = Some (Written r)))"
proof -
  let ?gs = "date_groups_of pl_files sl_files tp_files start_dt end_dt"
  let ?st0 = "st\<lparr>processed_count := 0, diagnostics := []\<rparr>"
  have st': "st' = process_groups env ?st0 ?gs"
    using assms by (simp add: merge_data_def)
  have diag: "diagnostics st' = map (\<lambda>g. (fst g, group_outcome env g)) ?gs"
    using merge_data_diagnostics(1)[OF assms] .
  have cnt: "processed_count st' = length (filter (\<lambda>g. group_outcome env g = Merged) ?gs)"
    using merge_data_diagnostics(2)[OF assms] .
  have c1: "map fst (diagnostics st') = map fst ?gs"
    unfolding diag by (simp add: comp_def)
  have c2: "processed_count st' = length (filter (\<lambda>d. snd d = Merged) (diagnostics st'))"
    unfolding diag cnt by (simp add: filter_map comp_def)
  have at: "\<exists>a b c. snd (try_group env empty_state key a b c) = Some e
              \<and> out_files st' (output_name key)
                  = (out_files st ++ out_files (fst (try_group env empty_state key a b c)))
                      (output_name key)"
    if H: "(key, Failed e) \<in> set (diagnostics st')" for key e
  proof -
    from H obtain fs where fs: "(key, fs) \<in> set ?gs" "group_outcome env (key, fs) = Failed e"
      unfolding diag by auto
    from failed_group_output[OF fs(2)] obtain a b c where
      t: "snd (try_group env empty_state key a b c) = Some e"
        "out_files (process_group env empty_state (key, fs))
           = out_files (fst (try_group env empty_state key a b c))"
      by blast
    have "out_files st' (output_name key)
            = (out_files ?st0 ++ out_files (process_group env empty_state (key, fs)))
                (output_name key)"
      unfolding st' using process_groups_at_key[OF date_groups_of_distinct fs(1)] .
    then show ?thesis using t by auto
  qed
  have c3: "out_files st' (output_name key) = out_files st (output_name key)"
    if H: "(key, Failed e) \<in> set (diagnostics st')
             \<and> e \<noteq> OSError WriteOutput \<and> e \<noteq> OSError VerifyOutput" for key e
  proof -
    from at[of key e] H obtain a b c where
      t: "snd (try_group env empty_state key a b c) = Some e"
        "out_files st' (output_name key)
           = (out_files st ++ out_files (fst (try_group env empty_state key a b c)))
               (output_name key)"
      by blast
    show ?thesis
      unfolding t(2) using try_group_failed_no_write[OF t(1), of "output_name key"] H
      by (simp add: map_add_def)
  qed
  have c4: "out_files st' (output_name key)
              = (case to_netcdf env (output_name key) of
                   WriteFailedPartial \<Rightarrow> Some Truncated
                 | _ \<Rightarrow> out_files st (output_name key))"
    if H: "(key, Failed (OSError WriteOutput)) \<in> set (diagnostics st')" for key
  proof -
    from at[OF H] obtain a b c where
      t: "snd (try_group env empty_state key a b c) = Some (OSError WriteOutput)"
        "out_files st' (output_name key)
           = (out_files st ++ out_files (fst (try_group env empty_state key a b c)))
               (output_name key)"
      by blast
    show ?thesis
      unfolding t(2) using try_group_write_failed[OF t(1)]
      by (simp add: map_add_def split: write_result.splits)
  qed
  have c5: "\<exists>r. out_files st' (output_name key) = Some (Written r)"
    if H: "(key, Failed (OSError VerifyOutput)) \<in> set (diagnostics st')" for key
  proof -
    from at[OF H] obtain a b c where
      t: "snd (try_group env empty_state key a b c) = Some (OSError VerifyOutput)"
        "out_files st' (output_name key)
           = (out_files st ++ out_files (fst (try_group env empty_state key a b c)))
               (output_name key)"
      by blast
    from try_group_verify_failed[OF t(1)] show ?thesis
      unfolding t(2) by (auto simp: map_add_def)
  qed
  show ?thesis using c1 c2 c3 c4 c5 by blast
qed

section \<open>Idempotence and the bounds\<close>

text \<open>
  C9: a second run on the same listings, bounds and environment, started from the state
  the first run left, leaves the same output files with the same content, the same
  count and the same diagnostics; a run that stops on a bound stops from any state.
\<close>

theorem merge_twice_same_result:
  "(merge_data env pl_files sl_files tp_files start_time end_time st = Some st'
      \<longrightarrow> (\<exists>st''. merge_data env pl_files sl_files tp_files start_time end_time st' = Some st''
             \<and> out_files st'' = out_files st'
             \<and> processed_count st'' = processed_count st'
             \<and> diagnostics st'' = diagnostics st'))
   \<and> (merge_data env pl_files sl_files tp_files start_time end_time st = None
      \<longrightarrow> merge_data env pl_files sl_files tp_files start_time end_time st2 = None)"
proof -
  have A: "\<exists>st''. merge_data env pl_files sl_files tp_files start_time end_time st' = Some st''
             \<and> out_files st'' = out_files st'
             \<and> processed_count st'' = processed_count st'
             \<and> diagnostics st'' = diagnostics st'"
    if run1: "merge_data env pl_files sl_files tp_files start_time end_time st = Some st'"
  proof -
    from run1 obtain start_dt end_dt where
      b: "parse_bound start_time = Inr start_dt" "parse_bound end_time = Inr end_dt"
      by (rule merge_data_Some)
    let ?gs = "date_groups_of pl_files sl_files tp_files start_dt end_dt"
    obtain st'' where
      run2: "merge_data env pl_files sl_files tp_files start_time end_time st' = Some st''"
      using b by (simp add: merge_data_def)
    let ?D = "out_files (process_groups env empty_state ?gs)"
    have o1: "out_files st' = out_files st ++ ?D"
      using merge_data_diagnostics(3)[OF run1 b] .
    have o2: "out_files st'' = out_files st' ++ ?D"
      using merge_data_diagnostics(3)[OF run2 b] .
    have idem: "(m ++ d) ++ d = m ++ d" for m d :: "string \<rightharpoonup> 'a file_content"
      by (rule ext) (simp add: map_add_def split: option.splits)
    have "out_files st'' = out_files st'"
      unfolding o2 o1 by (rule idem)
    moreover have "processed_count st'' = processed_count st'"
      using merge_data_diagnostics(2)[OF run1 b] merge_data_diagnostics(2)[OF run2 b] by simp
    moreover have "diagnostics st'' = diagnostics st'"
      using merge_data_diagnostics(1)[OF run1 b] merge_data_diagnostics(1)[OF run2 b] by simp
    ultimately show ?thesis using run2 by blast
  qed
  have B: "merge_data env pl_files sl_files tp_files start_time end_time st2 = None"
    if "merge_data env pl_files sl_files tp_files start_time end_time st = None"
    using that by (auto simp: merge_data_def split: sum.splits)
  show ?thesis using A B by blast
qed

lemma parse_bound_Inl: "parse_bound t = Inl u \<longleftrightarrow> malformed_bound t"
  by (auto simp: parse_bound_def malformed_bound_def split: option.splits)

text \<open>
  C8, as the code has it.  A non-empty start or end argument that neither accepted
  format parses makes the run return before any file is scanned, so no group is
  processed and no output is written; and the run returns early only for such a bound.
\<close>

theorem malformed_bound_aborts:
  "(s \<noteq> [] \<and> strptime s fmt_dashed = None \<and> strptime s fmt_compact = None
      \<longrightarrow> merge_data env pl_files sl_files tp_files (Some s) end_time st = None
          \<and> merge_data env pl_files sl_files tp_files start_time (Some s) st = None)
   \<and> (merge_data env pl_files sl_files tp_files start_time end_time st = None
        \<longleftrightarrow> malformed_bound start_time \<or> malformed_bound end_time)"
proof -
  have iff: "merge_data env pl_files sl_files tp_files t1 t2 st = None
        \<longleftrightarrow> malformed_bound t1 \<or> malformed_bound t2" for t1 t2
    using parse_bound_Inl[of t1 "()"] parse_bound_Inl[of t2 "()"]
    by (cases "parse_bound t1"; cases "parse_bound t2") (auto simp: merge_data_def)
  have "malformed_bound (Some s)"
    if "s \<noteq> [] \<and> strptime s fmt_dashed = None \<and> strptime s fmt_compact = None"
    using that by (simp add: malformed_bound_def)
  then show ?thesis using iff by blast
qed

section \<open>The example run\<close>

lemma reset_empty_state:
  "(empty_state :: 'a state)\<lparr>processed_count := 0, diagnostics := []\<rparr> = empty_state"
  by (simp add: empty_state_def)

lemma example_files_slots:
  "example_files PL = Some ''era5_20180201_0000_pl.nc''"
  "example_files SL = Some ''era5_20180201_0000_sl.nc''"
  "example_files TP = Some ''era5_20180201_0000_tp.nc''"
  by (simp_all add: example_files_def)

lemma example_run:
  assumes "parse_bound start_time = Inr None" and "parse_bound end_time = Inr None"
  shows "merge_data env [''era5_20180201_0000_pl.nc''] [''era5_20180201_0000_sl.nc'']
           [''era5_20180201_0000_tp.nc''] start_time end_time empty_state
         = Some (log (fst (try_group env empty_state example_key ''era5_20180201_0000_pl.nc''
                            ''era5_20180201_0000_sl.nc'' ''era5_20180201_0000_tp.nc''))
                   example_key (group_outcome env (example_key, example_files)))"
  using assms
  by (simp add: merge_data_def example_groups reset_empty_state
        process_group_complete[OF example_files_slots])

lemma example_try_ok:
  "snd (try_group example_env empty_state example_key ''era5_20180201_0000_pl.nc''
          ''era5_20180201_0000_sl.nc'' ''era5_20180201_0000_tp.nc'') = None"
  "open_handles (fst (try_group example_env empty_state example_key
          ''era5_20180201_0000_pl.nc'' ''era5_20180201_0000_sl.nc''
          ''era5_20180201_0000_tp.nc'')) = []"
  "processed_count (fst (try_group example_env empty_state example_key
          ''era5_20180201_0000_pl.nc'' ''era5_20180201_0000_sl.nc''
          ''era5_20180201_0000_tp.nc'')) = 1"
  by code_simp+

lemma example_try_write_fails:
  "snd (try_group example_env_write_fails empty_state example_key ''era5_20180201_0000_pl.nc''
          ''era5_20180201_0000_sl.nc'' ''era5_20180201_0000_tp.nc'')
     = Some (OSError WriteOutput)"
  "open_handles (fst (try_group example_env_write_fails empty_state example_key
          ''era5_20180201_0000_pl.nc'' ''era5_20180201_0000_sl.nc''
          ''era5_20180201_0000_tp.nc''))
     = [(PL, ''era5_20180201_0000_pl.nc''), (SL, ''era5_20180201_0000_sl.nc''),
        (TP, ''era5_20180201_0000_tp.nc'')]"
  by code_simp+

lemma example_try_verify_fails:
  "snd (try_group example_env_verify_fails empty_state example_key ''era5_20180201_0000_pl.nc''
          ''era5_20180201_0000_sl.nc'' ''era5_20180201_0000_tp.nc'')
     = Some (OSError VerifyOutput)"
  "out_files (fst (try_group example_env_verify_fails empty_state example_key
          ''era5_20180201_0000_pl.nc'' ''era5_20180201_0000_sl.nc''
          ''era5_20180201_0000_tp.nc'')) (output_name example_key) \<noteq> None"
  by code_simp+

lemma example_try_write_partial:
  "snd (try_group example_env_write_partial empty_state example_key
          ''era5_20180201_0000_pl.nc'' ''era5_20180201_0000_sl.nc''
          ''era5_20180201_0000_tp.nc'')
     = Some (OSError WriteOutput)"
  "out_files (fst (try_group example_env_write_partial empty_state example_key
          ''era5_20180201_0000_pl.nc'' ''era5_20180201_0000_sl.nc''
          ''era5_20180201_0000_tp.nc'')) (output_name example_key) = Some Truncated"
  by code_simp+

lemma example_outcomes:
  "group_outcome example_env (example_key, example_files) = Merged"
  "group_outcome example_env_write_fails (example_key, example_files)
     = Failed (OSError WriteOutput)"
  "group_outcome example_env_verify_fails (example_key, example_files)
     = Failed (OSError VerifyOutput)"
  "group_outcome example_env_write_partial (example_key, example_files)
     = Failed (OSError WriteOutput)"
  by (simp_all add: group_outcome_def example_files_slots example_try_ok
        example_try_write_fails example_try_verify_fails example_try_write_partial)

lemma parse_bound_none: "parse_bound None = Inr None" "parse_bound (Some []) = Inr None"
  by (simp_all add: parse_bound_def)

text \<open>
  C6 at a failing input: the three files of the example group open and flatten, the
  record is built, and \<open>to_netcdf\<close> raises.  The run ends with the three source
  handles still open; on the run whose write succeeds they are closed.
\<close>

theorem source_handles_after_failed_write:
  "diagnostics (the (merge_data example_env_write_fails [''era5_20180201_0000_pl.nc'']
       [''era5_20180201_0000_sl.nc''] [''era5_20180201_0000_tp.nc''] None None empty_state))
     = [(example_key, Failed (OSError WriteOutput))]
   \<and> open_handles (the (merge_data example_env_write_fails [''era5_20180201_0000_pl.nc'']
       [''era5_20180201_0000_sl.nc''] [''era5_20180201_0000_tp.nc''] None None empty_state))
     = [(PL, ''era5_20180201_0000_pl.nc''), (SL, ''era5_20180201_0000_sl.nc''),
        (TP, ''era5_20180201_0000_tp.nc'')]
   \<and> open_handles (the (merge_data example_env [''era5_20180201_0000_pl.nc'']
       [''era5_20180201_0000_sl.nc''] [''era5_20180201_0000_tp.nc''] None None empty_state))
     = []"
  by (simp add: example_run[OF parse_bound_none(1) parse_bound_none(1)] log_def
        example_outcomes example_try_ok example_try_write_fails try_group_frame(3))
     (simp add: empty_state_def)

text \<open>
  C7 as stated fails for a group whose verification read raises, and for a group whose
  write raises after the file was created: the group is reported as failed and a file
  of its key is there, whole in the first case and truncated in the second.
\<close>

theorem group_failures_are_contained_counterexample:
  "diagnostics (the (merge_data example_env_verify_fails [''era5_20180201_0000_pl.nc'']
       [''era5_20180201_0000_sl.nc''] [''era5_20180201_0000_tp.nc''] None None empty_state))
     = [(example_key, Failed (OSError VerifyOutput))]
   \<and> out_files (the (merge_data example_env_verify_fails [''era5_20180201_0000_pl.nc'']
       [''era5_20180201_0000_sl.nc''] [''era5_20180201_0000_tp.nc''] None None empty_state))
       (output_name example_key) \<noteq> None
   \<and> diagnostics (the (merge_data example_env_write_partial [''era5_20180201_0000_pl.nc'']
       [''era5_20180201_0000_sl.nc''] [''era5_20180201_0000_tp.nc''] None None empty_state))
     = [(example_key, Failed (OSError WriteOutput))]
   \<and> out_files (the (merge_data example_env_write_partial [''era5_20180201_0000_pl.nc'']
       [''era5_20180201_0000_sl.nc''] [''era5_20180201_0000_tp.nc''] None None empty_state))
       (output_name example_key) = Some Truncated
   \<and> out_files (empty_state :: nat state) (output_name example_key) = None"
  by (simp add: example_run[OF parse_bound_none(1) parse_bound_none(1)] log_def
        example_outcomes example_try_verify_fails example_try_write_partial try_group_frame(3))
     (simp add: empty_state_def)

text \<open>
  C8 as stated fails for the empty string: neither format parses it, and the run takes
  it for no bound and merges.
\<close>

theorem malformed_bound_aborts_counterexample:
  "strptime [] fmt_dashed = None \<and> strptime [] fmt_compact = None
   \<and> merge_data example_env [''era5_20180201_0000_pl.nc''] [''era5_20180201_0000_sl.nc'']
       [''era5_20180201_0000_tp.nc''] (Some []) None empty_state \<noteq> None
   \<and> diagnostics (the (merge_data example_env [''era5_20180201_0000_pl.nc'']
       [''era5_20180201_0000_sl.nc''] [''era5_20180201_0000_tp.nc''] (Some []) None empty_state))
     = [(example_key, Merged)]"
proof -
  have "strptime [] fmt_dashed = None" "strptime [] fmt_compact = None"
    by code_simp+
  then show ?thesis
    by (simp add: example_run[OF parse_bound_none(2) parse_bound_none(1)] log_def
        example_outcomes try_group_frame(3))
       (simp add: empty_state_def)
qed

section \<open>The run-level statements on the example run\<close>

theorem group_failures_are_contained_witness:
  "diagnostics (the (merge_data (oversized_env 1) [''era5_20180201_0000_pl.nc'']
       [''era5_20180201_0000_sl.nc''] [''era5_20180201_0000_tp.nc''] None None empty_state))
     = [(example_key, Failed IndexError)]
   \<and> processed_count (the (merge_data (oversized_env 1) [''era5_20180201_0000_pl.nc'']
       [''era5_20180201_0000_sl.nc''] [''era5_20180201_0000_tp.nc''] None None empty_state)) = 0
   \<and> out_files (the (merge_data (oversized_env 1) [''era5_20180201_0000_pl.nc'']
       [''era5_20180201_0000_sl.nc''] [''era5_20180201_0000_tp.nc''] None None empty_state))
       (output_name example_key) = None
   \<and> out_files (the (merge_data example_env_write_fails [''era5_20180201_0000_pl.nc'']
       [''era5_20180201_0000_sl.nc''] [''era5_20180201_0000_tp.nc''] None None empty_state))
       (output_name example_key) = None
   \<and> out_files (the (merge_data example_env_write_partial [''era5_20180201_0000_pl.nc'']
       [''era5_20180201_0000_sl.nc''] [''era5_20180201_0000_tp.nc''] None None empty_state))
       (output_name example_key) = Some Truncated
   \<and> written_record (the (merge_data example_env_verify_fails [''era5_20180201_0000_pl.nc'']
       [''era5_20180201_0000_sl.nc''] [''era5_20180201_0000_tp.nc''] None None empty_state))
       (output_name example_key) \<noteq> None"
proof -
  note pb = parse_bound_none(1)
  have runs: "\<exists>st'. merge_data env [''era5_20180201_0000_pl.nc'']
       [''era5_20180201_0000_sl.nc''] [''era5_20180201_0000_tp.nc''] None None empty_state
         = Some st'
       \<and> diagnostics st' = [(example_key, group_outcome env (example_key, example_files))]"
    for env :: "nat env"
    by (simp add: example_run[OF pb pb] log_def try_group_frame(3)) (simp add: empty_state_def)
  obtain s1 where s1: "merge_data (oversized_env 1) [''era5_20180201_0000_pl.nc'']
       [''era5_20180201_0000_sl.nc''] [''era5_20180201_0000_tp.nc''] None None empty_state
         = Some s1" "diagnostics s1 = [(example_key, Failed IndexError)]"
    using runs[of "oversized_env 1"] oversized_eval(1) by auto
  obtain s2 where s2: "merge_data example_env_write_fails [''era5_20180201_0000_pl.nc'']
       [''era5_20180201_0000_sl.nc''] [''era5_20180201_0000_tp.nc''] None None empty_state
         = Some s2" "diagnostics s2 = [(example_key, Failed (OSError WriteOutput))]"
    using runs[of example_env_write_fails] example_outcomes(2) by auto
  obtain s3 where s3: "merge_data example_env_write_partial [''era5_20180201_0000_pl.nc'']
       [''era5_20180201_0000_sl.nc''] [''era5_20180201_0000_tp.nc''] None None empty_state
         = Some s3" "diagnostics s3 = [(example_key, Failed (OSError WriteOutput))]"
    using runs[of example_env_write_partial] example_outcomes(4) by auto
  obtain s4 where s4: "merge_data example_env_verify_fails [''era5_20180201_0000_pl.nc'']
       [''era5_20180201_0000_sl.nc''] [''era5_20180201_0000_tp.nc''] None None empty_state
         = Some s4" "diagnostics s4 = [(example_key, Failed (OSError VerifyOutput))]"
    using runs[of example_env_verify_fails] example_outcomes(3) by auto
  have e: "out_files (empty_state :: nat state) (output_name example_key) = None"
    by (simp add: empty_state_def)
  have w: "to_netcdf example_env_write_fails (output_name example_key) = WriteFailed"
    "to_netcdf example_env_write_partial (output_name example_key) = WriteFailedPartial"
    by (simp_all add: example_env_write_fails_def example_env_write_partial_def)
  from group_failures_are_contained[OF s1(1) pb pb]
  have a1: "processed_count s1 = length (filter (\<lambda>d. snd d = Merged) (diagnostics s1))"
    and b1: "\<forall>key e. (key, Failed e) \<in> set (diagnostics s1)
                \<and> e \<noteq> OSError WriteOutput \<and> e \<noteq> OSError VerifyOutput
              \<longrightarrow> out_files s1 (output_name key) = out_files empty_state (output_name key)"
    by blast+
  have r1: "processed_count s1 = 0" "out_files s1 (output_name example_key) = None"
    using a1 b1 s1(2) e by simp_all
  from group_failures_are_contained[OF s2(1) pb pb]
  have "\<forall>key. (key, Failed (OSError WriteOutput)) \<in> set (diagnostics s2)
              \<longrightarrow> out_files s2 (output_name key)
                    = (case to_netcdf example_env_write_fails (output_name key) of
                         WriteFailedPartial \<Rightarrow> Some Truncated
                       | _ \<Rightarrow> out_files empty_state (output_name key))"
    by blast
  then have r2: "out_files s2 (output_name example_key) = None"
    using s2(2) w(1) e by simp
  from group_failures_are_contained[OF s3(1) pb pb]
  have "\<forall>key. (key, Failed (OSError WriteOutput)) \<in> set (diagnostics s3)
              \<longrightarrow> out_files s3 (output_name key)
                    = (case to_netcdf example_env_write_partial (output_name key) of
                         WriteFailedPartial \<Rightarrow> Some Truncated
                       | _ \<Rightarrow> out_files empty_state (output_name key))"
    by blast
  then have r3: "out_files s3 (output_name example_key) = Some Truncated"
    using s3(2) w(2) by simp
  from group_failures_are_contained[OF s4(1) pb pb]
  have "\<forall>key. (key, Failed (OSError VerifyOutput)) \<in> set (diagnostics s4)
              \<longrightarrow> (\<exists>r. out_files s4 (output_name key) = Some (Written r))"
    by blast
  then have r4: "written_record s4 (output_name example_key) \<noteq> None"
    using s4(2) by (auto simp: written_record_def)
  show ?thesis
    unfolding s1(1) s2(1) s3(1) s4(1) option.sel
    by (intro conjI s1(2) r1 r2 r3 r4)
qed

theorem malformed_bound_aborts_witness:
  "merge_data example_env [''era5_20180201_0000_pl.nc''] [''era5_20180201_0000_sl.nc'']
       [''era5_20180201_0000_tp.nc''] (Some ''2018/02/01'') None empty_state = None
   \<and> merge_data example_env [''era5_20180201_0000_pl.nc''] [''era5_20180201_0000_sl.nc'']
       [''era5_20180201_0000_tp.nc''] (Some ''2018-02-01 06:00'') (Some ''2018/02/01'')
       empty_state = None
   \<and> malformed_bound (Some ''2018/02/01'')
   \<and> \<not> malformed_bound (Some ''2018-02-01 06:00'')"
proof -
  have bad: "''2018/02/01'' \<noteq> [] \<and> strptime ''2018/02/01'' fmt_dashed = None
               \<and> strptime ''2018/02/01'' fmt_compact = None"
    by code_simp
  have m: "malformed_bound (Some ''2018/02/01'')" "\<not> malformed_bound (Some ''2018-02-01 06:00'')"
    by code_simp+
  show ?thesis
    using malformed_bound_aborts[of "''2018/02/01''" example_env "[''era5_20180201_0000_pl.nc'']"
        "[''era5_20180201_0000_sl.nc'']" "[''era5_20180201_0000_tp.nc'']" None empty_state
        "Some ''2018-02-01 06:00''"] bad m
    by blast
qed

theorem merge_twice_same_result_witness:
  "merge_data example_env [''era5_20180201_0000_pl.nc''] [''era5_20180201_0000_sl.nc'']
       [''era5_20180201_0000_tp.nc''] None None
       (the (merge_data example_env [''era5_20180201_0000_pl.nc'']
          [''era5_20180201_0000_sl.nc''] [''era5_20180201_0000_tp.nc''] None None empty_state))
     \<noteq> None
   \<and> processed_count (the (merge_data example_env [''era5_20180201_0000_pl.nc'']
       [''era5_20180201_0000_sl.nc''] [''era5_20180201_0000_tp.nc''] None None
       (the (merge_data example_env [''era5_20180201_0000_pl.nc'']
          [''era5_20180201_0000_sl.nc''] [''era5_20180201_0000_tp.nc''] None None empty_state))))
     = 1
   \<and> diagnostics (the (merge_data example_env [''era5_20180201_0000_pl.nc'']
       [''era5_20180201_0000_sl.nc''] [''era5_20180201_0000_tp.nc''] None None
       (the (merge_data example_env [''era5_20180201_0000_pl.nc'']
          [''era5_20180201_0000_sl.nc''] [''era5_20180201_0000_tp.nc''] None None empty_state))))
     = [(example_key, Merged)]"
proof -
  let ?run = "merge_data example_env [''era5_20180201_0000_pl.nc'']
       [''era5_20180201_0000_sl.nc''] [''era5_20180201_0000_tp.nc''] None None"
  obtain st' where run: "?run empty_state = Some st'"
    by (simp add: example_run[OF parse_bound_none(1) parse_bound_none(1)])
  have "st' = log (fst (try_group example_env empty_state example_key
                          ''era5_20180201_0000_pl.nc'' ''era5_20180201_0000_sl.nc''
                          ''era5_20180201_0000_tp.nc''))
                 example_key Merged"
    using run unfolding example_run[OF parse_bound_none(1) parse_bound_none(1)] example_outcomes
    by simp
  then have d: "diagnostics st' = [(example_key, Merged)]" "processed_count st' = 1"
    by (simp_all add: log_def try_group_frame(3) example_try_ok) (simp add: empty_state_def)
  from merge_twice_same_result[of example_env "[''era5_20180201_0000_pl.nc'']"
      "[''era5_20180201_0000_sl.nc'']" "[''era5_20180201_0000_tp.nc'']" None None
      empty_state st' empty_state] run
  obtain st'' where "?run st' = Some st''" "processed_count st'' = processed_count st'"
    "diagnostics st'' = diagnostics st'"
    by blast
  then show ?thesis
    using run d by simp
qed

end
